theory Spec2Isabelle
  imports Main "HOL-Library.Word" "HOL-Library.Multiset"
begin

section \<open>Merging MuJoCo models: the tree document\<close>

text \<open>
  The merge module of \<^verbatim>\<open>mj_utils_merge_mujoco_models.cpp\<close> works on pugixml trees.
  An element node has a tag name, a sequence of attributes (name and value, both text)
  and a sequence of child nodes. The attribute sequence is kept as a list: pugixml's
  \<^verbatim>\<open>attribute(name)\<close> returns the first attribute of that name, \<^verbatim>\<open>append_attribute\<close> adds
  at the end, and \<^verbatim>\<open>attributes()\<close> iterates in document order. Only element nodes are
  modelled: with the default options of \<^verbatim>\<open>load_file\<close> comments and blank text are not kept
  in the tree, and a MuJoCo document holds nothing else beside elements.
\<close>

type_synonym xml_attribute = "string \<times> string"

datatype xml_node =
  Node (name: string) (attributes: "xml_attribute list") (children: "xml_node list")

text \<open>
  A pugixml handle may be null. Every accessor the module reads through a null handle
  (\<^verbatim>\<open>name()\<close>, \<^verbatim>\<open>attribute()\<close>, \<^verbatim>\<open>attributes()\<close>, \<^verbatim>\<open>child()\<close>, \<^verbatim>\<open>children()\<close>) answers as
  for a node without name, attributes and children, so a null input handle is passed on
  as \<open>null_node\<close>; where the source tests a handle (\<^verbatim>\<open>if(!child)\<close>) the model tests the
  \<open>option\<close> returned by \<open>child\<close> or \<open>attribute\<close>.
\<close>

definition null_node :: xml_node where
  "null_node = Node [] [] []"

definition attribute :: "xml_node \<Rightarrow> string \<Rightarrow> string option" where
  "attribute n a = map_of (attributes n) a"

definition child :: "xml_node \<Rightarrow> string \<Rightarrow> xml_node option" where
  "child n nm = find (\<lambda>c. name c = nm) (children n)"

definition child_or_null :: "xml_node \<Rightarrow> string \<Rightarrow> xml_node" where
  "child_or_null n nm = (case child n nm of None \<Rightarrow> null_node | Some c \<Rightarrow> c)"

definition children_named :: "xml_node \<Rightarrow> string \<Rightarrow> xml_node list" where
  "children_named n nm = filter (\<lambda>c. name c = nm) (children n)"

text \<open>\<^verbatim>\<open>xml_attribute::set_value\<close> on the handle \<^verbatim>\<open>n.attribute(a)\<close>: the first attribute named \<open>a\<close>.\<close>

fun set_first :: "string \<Rightarrow> string \<Rightarrow> xml_attribute list \<Rightarrow> xml_attribute list" where
  "set_first a v [] = []"
| "set_first a v ((k, w) # xs) = (if k = a then (k, v) # xs else (k, w) # set_first a v xs)"

definition set_value :: "xml_node \<Rightarrow> string \<Rightarrow> string \<Rightarrow> xml_node" where
  "set_value n a v = Node (name n) (set_first a v (attributes n)) (children n)"

definition append_attribute :: "xml_node \<Rightarrow> string \<Rightarrow> string \<Rightarrow> xml_node" where
  "append_attribute n a v = Node (name n) (attributes n @ [(a, v)]) (children n)"

definition append_child :: "xml_node \<Rightarrow> string \<Rightarrow> xml_node" where
  "append_child n nm = Node (name n) (attributes n) (children n @ [Node nm [] []])"

text \<open>
  \<^verbatim>\<open>append_copy\<close> deep-copies a node to the end of the children and returns a handle on
  the copy; the source then edits the copy through the handle. The model edits the copy
  first and appends the edited node, which gives the same tree.
\<close>

definition append_copy :: "xml_node \<Rightarrow> xml_node \<Rightarrow> xml_node" where
  "append_copy n c = Node (name n) (attributes n) (children n @ [c])"

text \<open>
  \<^verbatim>\<open>get_child_or_create\<close> (lines 11-19) returns a handle on the first child of that
  name, appending an empty one when there is none. The model returns the parent (with
  the child appended where it was missing) together with the child's current value;
  \<open>put_child\<close> writes the edited child back to the place the handle points at, the first
  child of that name.
\<close>

definition get_child_or_create :: "xml_node \<Rightarrow> string \<Rightarrow> xml_node \<times> xml_node" where
  "get_child_or_create out nm =
     (case child out nm of
        Some c \<Rightarrow> (out, c)
      | None \<Rightarrow> (append_child out nm, Node nm [] []))"

fun replace_first :: "string \<Rightarrow> xml_node \<Rightarrow> xml_node list \<Rightarrow> xml_node list" where
  "replace_first nm c' [] = []"
| "replace_first nm c' (c # cs) = (if name c = nm then c' # cs else c # replace_first nm c' cs)"

definition put_child :: "xml_node \<Rightarrow> string \<Rightarrow> xml_node \<Rightarrow> xml_node" where
  "put_child out nm c' = Node (name out) (attributes out) (replace_first nm c' (children out))"

section \<open>Library capabilities\<close>

text \<open>
  The module calls pugixml for reading and writing integers in attribute values and
  boost::filesystem for paths; neither library is part of the merge module. Their
  operations are parameters of the model: \<open>as_int\<close> is \<^verbatim>\<open>xml_attribute::as_int\<close>,
  \<open>int_to_string\<close> is what \<^verbatim>\<open>set_value(int)\<close> stores, \<open>is_absolute\<close>, \<open>absolute\<close>,
  \<open>path_append\<close> (the operator \<^verbatim>\<open>/\<close>) and \<open>parent_path\<close> are the operations of
  \<^verbatim>\<open>bfs::path\<close>. A C++ \<^verbatim>\<open>int\<close> is a 32-bit word; its addition is written as word addition,
  which wraps.
\<close>

record lib =
  as_int :: "string \<Rightarrow> 32 word"
  int_to_string :: "32 word \<Rightarrow> string"
  is_absolute :: "string \<Rightarrow> bool"
  absolute :: "string \<Rightarrow> string"
  path_append :: "string \<Rightarrow> string \<Rightarrow> string"
  parent_path :: "string \<Rightarrow> string"

section \<open>Diagnostics and failures\<close>

text \<open>
  What the module does besides editing the output tree is recorded as a list of events:
  a conflict warning of \<^verbatim>\<open>merge_mujoco_node\<close> (section, attribute, source file, value in
  the source, value kept in the merged model), an error report of
  \<^verbatim>\<open>error_and_throw\<close>, a call of \<^verbatim>\<open>load_file\<close>, and the document saved to a path.
\<close>

datatype event =
  Critical string string string string string
| Error string
| Load_file string
| Save string xml_node

datatype failure =
  Runtime_error string
| Index_out_of_range nat

section \<open>Attribute mergers\<close>

definition size_attributes :: "string list" where
  "size_attributes =
     [''njmax'', ''nconmax'', ''nstack'', ''nuserdata'', ''nkey'',
      ''nuser_body'', ''nuser_jnt'', ''nuser_geom'', ''nuser_site'', ''nuser_cam'',
      ''nuser_tendon'', ''nuser_actuator'', ''nuser_sensor'']"

text \<open>The body of the loop of \<^verbatim>\<open>merge_mujoco_size\<close> (lines 28-41) for one counter.\<close>

definition merge_size_attr :: "lib \<Rightarrow> xml_node \<Rightarrow> xml_node \<Rightarrow> string \<Rightarrow> xml_node" where
  "merge_size_attr L inp out attr =
     (case attribute inp attr of
        None \<Rightarrow> out
      | Some vi \<Rightarrow>
          (case attribute out attr of
             Some vo \<Rightarrow> set_value out attr (int_to_string L (as_int L vo + as_int L vi))
           | None \<Rightarrow> append_attribute out attr vi))"

definition merge_mujoco_size :: "lib \<Rightarrow> xml_node \<Rightarrow> xml_node \<Rightarrow> xml_node" where
  "merge_mujoco_size L inp out = foldl (merge_size_attr L inp) out size_attributes"

text \<open>
  The body of the loop of \<^verbatim>\<open>merge_mujoco_node\<close> (lines 53-68) for one attribute of the
  source node; the state is the output node and the warnings logged so far.
\<close>

definition merge_attr ::
  "string \<Rightarrow> string \<Rightarrow> string list \<Rightarrow> xml_node \<times> event list \<Rightarrow> xml_attribute
     \<Rightarrow> xml_node \<times> event list" where
  "merge_attr node fileIn exclude st av =
     (case st of (out, log) \<Rightarrow>
      case av of (a, v) \<Rightarrow>
        if a \<in> set exclude then (out, log)
        else (case attribute out a of
                None \<Rightarrow> (append_attribute out a v, log)
              | Some vo \<Rightarrow>
                  if vo \<noteq> v then (out, log @ [Critical node a fileIn v vo])
                  else (out, log)))"

definition merge_mujoco_node ::
  "string \<Rightarrow> string \<Rightarrow> xml_node \<Rightarrow> xml_node \<Rightarrow> string list \<Rightarrow> xml_node \<times> event list" where
  "merge_mujoco_node node fileIn inp out exclude =
     foldl (merge_attr node fileIn exclude) (out, []) (attributes inp)"

definition merge_mujoco_compiler :: "string \<Rightarrow> xml_node \<Rightarrow> xml_node \<Rightarrow> xml_node \<times> event list" where
  "merge_mujoco_compiler fileIn inp out =
     merge_mujoco_node ''compiler'' fileIn inp out [''meshdir'', ''texturedir'']"

definition merge_mujoco_option :: "string \<Rightarrow> xml_node \<Rightarrow> xml_node \<Rightarrow> xml_node \<times> event list" where
  "merge_mujoco_option fileIn inp out =
     (let (out1, log1) = merge_mujoco_node ''option'' fileIn inp out []
      in (case child inp ''flag'' of
            None \<Rightarrow> (out1, log1)
          | Some flag \<Rightarrow>
              (let (out2, flag_out) = get_child_or_create out1 ''flag'';
                   (flag_out', log2) = merge_mujoco_node ''option/flag'' fileIn flag flag_out []
               in (put_child out2 ''flag'' flag_out', log1 @ log2))))"

section \<open>Namespace prefixer\<close>

text \<open>\<^verbatim>\<open>fmt::format("{}_{}", prefix, value)\<close> is the prefix, an underscore and the value.\<close>

definition add_prefix :: "string \<Rightarrow> xml_node \<Rightarrow> string \<Rightarrow> xml_node" where
  "add_prefix prefix n attr =
     (case attribute n attr of
        None \<Rightarrow> n
      | Some v \<Rightarrow> set_value n attr (prefix @ ''_'' @ v))"

definition add_prefixes :: "string \<Rightarrow> xml_node \<Rightarrow> string list \<Rightarrow> xml_node" where
  "add_prefixes prefix n attrs = foldl (add_prefix prefix) n attrs"

fun add_prefix_recursively :: "string \<Rightarrow> xml_node \<Rightarrow> string list \<Rightarrow> xml_node" where
  "add_prefix_recursively prefix (Node nm as cs) attrs =
     Node nm (attributes (add_prefixes prefix (Node nm as cs) attrs))
       (map (\<lambda>c. add_prefix_recursively prefix c attrs) cs)"

section \<open>Section mergers\<close>

definition default_attrs :: "string list" where
  "default_attrs = [''class'', ''material'', ''hfield'', ''mesh'', ''target'']"

text \<open>One iteration of the loop of \<^verbatim>\<open>merge_mujoco_default\<close> (lines 116-128).\<close>

definition merge_default_child ::
  "string \<Rightarrow> string \<Rightarrow> xml_node \<times> event list \<Rightarrow> xml_node \<Rightarrow> xml_node \<times> event list" where
  "merge_default_child fileIn robot st c =
     (let (out, log) = st
      in if name c = ''default''
         then (append_copy out (add_prefix_recursively robot c default_attrs), log)
         else (let (out1, c_out) = get_child_or_create out (name c);
                   (c_out', log1) = merge_mujoco_node (''default/'' @ name c) fileIn c c_out []
               in (put_child out1 (name c) c_out', log @ log1)))"

definition merge_mujoco_default ::
  "string \<Rightarrow> xml_node \<Rightarrow> xml_node \<Rightarrow> string \<Rightarrow> xml_node \<times> event list" where
  "merge_mujoco_default fileIn inp out robot =
     foldl (merge_default_child fileIn robot) (out, []) (children inp)"

definition merge_visual_child ::
  "string \<Rightarrow> xml_node \<times> event list \<Rightarrow> xml_node \<Rightarrow> xml_node \<times> event list" where
  "merge_visual_child fileIn st c =
     (let (out, log) = st;
          (out1, c_out) = get_child_or_create out (name c);
          (c_out', log1) = merge_mujoco_node (''visual/'' @ name c) fileIn c c_out []
      in (put_child out1 (name c) c_out', log @ log1))"

definition merge_mujoco_visual :: "string \<Rightarrow> xml_node \<Rightarrow> xml_node \<Rightarrow> xml_node \<times> event list" where
  "merge_mujoco_visual fileIn inp out = foldl (merge_visual_child fileIn) (out, []) (children inp)"

definition copy_and_add_prefix ::
  "xml_node \<Rightarrow> xml_node \<Rightarrow> string \<Rightarrow> string \<Rightarrow> string list \<Rightarrow> xml_node" where
  "copy_and_add_prefix inp out nm prefix attrs =
     foldl (\<lambda>acc c. append_copy acc (add_prefixes prefix c attrs)) out (children_named inp nm)"

text \<open>The two lambdas of \<^verbatim>\<open>merge_mujoco_asset\<close> (lines 162-173).\<close>

definition update_name :: "string \<Rightarrow> xml_node \<Rightarrow> xml_node" where
  "update_name robot n = add_prefix robot n ''name''"

definition update_file :: "lib \<Rightarrow> xml_node \<Rightarrow> string \<Rightarrow> xml_node" where
  "update_file L n dir =
     (case attribute n ''file'' of
        None \<Rightarrow> n
      | Some f \<Rightarrow>
          if \<not> is_absolute L f
          then set_value n ''file'' (absolute L (path_append L dir f))
          else n)"

text \<open>The lambda \<^verbatim>\<open>copy_assets\<close> (lines 179-186).\<close>

definition copy_assets :: "lib \<Rightarrow> string \<Rightarrow> xml_node \<Rightarrow> xml_node \<Rightarrow> string \<Rightarrow> string \<Rightarrow> xml_node" where
  "copy_assets L robot inp out type dir =
     foldl (\<lambda>acc n. append_copy acc (update_file L (update_name robot n) dir)) out
       (children_named inp type)"

text \<open>The loop over the bones of a copied skin (lines 192-195).\<close>

definition prefix_bones :: "string \<Rightarrow> xml_node \<Rightarrow> xml_node" where
  "prefix_bones robot s =
     Node (name s) (attributes s)
       (map (\<lambda>b. if name b = ''bone'' then add_prefix robot b ''body'' else b) (children s))"

definition merge_mujoco_asset ::
  "lib \<Rightarrow> xml_node \<Rightarrow> xml_node \<Rightarrow> string \<Rightarrow> string \<Rightarrow> string \<Rightarrow> xml_node" where
  "merge_mujoco_asset L inp out meshPath texturePath robot =
     (let out1 = foldl (\<lambda>acc hf. append_copy acc (update_name robot hf)) out
                   (children_named inp ''hfield'');
          out2 = foldl (\<lambda>acc s. append_copy acc
                           (prefix_bones robot (update_file L (update_name robot s) meshPath)))
                   out1 (children_named inp ''skin'');
          out3 = foldl (\<lambda>acc mat. append_copy acc (add_prefix robot (update_name robot mat) ''texture''))
                   out2 (children_named inp ''material'');
          out4 = copy_assets L robot inp out3 ''texture'' texturePath
      in copy_assets L robot inp out4 ''mesh'' meshPath)"

definition merge_mujoco_contact :: "xml_node \<Rightarrow> xml_node \<Rightarrow> string \<Rightarrow> xml_node" where
  "merge_mujoco_contact inp out robot =
     copy_and_add_prefix inp
       (copy_and_add_prefix inp out ''pair'' robot [''name'', ''class'', ''geom1'', ''geom2''])
       ''exclude'' robot [''name'', ''body1'', ''body2'']"

definition merge_mujoco_actuator :: "xml_node \<Rightarrow> xml_node \<Rightarrow> string \<Rightarrow> xml_node" where
  "merge_mujoco_actuator inp out robot =
     foldl (\<lambda>acc c. append_copy acc
              (add_prefixes robot c
                 [''name'', ''class'', ''joint'', ''jointinparent'', ''site'', ''tendon'',
                  ''cranksite'', ''slidersite'']))
       out (children inp)"

definition merge_mujoco_sensor :: "xml_node \<Rightarrow> xml_node \<Rightarrow> string \<Rightarrow> xml_node" where
  "merge_mujoco_sensor inp out robot =
     foldl (\<lambda>acc c. append_copy acc
              (add_prefixes robot c
                 [''name'', ''site'', ''joint'', ''actuator'', ''tendon'', ''objname'', ''body'']))
       out (children inp)"

text \<open>The attribute list of line 242, spelled as the source spells it.\<close>

definition worldbody_attrs :: "string list" where
  "worldbody_attrs =
     [''name'', ''childclasss'', ''class'', ''material'', ''hfield'', ''mesh'', ''target'']"

definition merge_mujoco_worldbody :: "xml_node \<Rightarrow> xml_node \<Rightarrow> string \<Rightarrow> xml_node" where
  "merge_mujoco_worldbody inp out robot =
     foldl (\<lambda>acc c. append_copy acc (add_prefix_recursively robot c worldbody_attrs)) out
       (children inp)"

section \<open>Asset path resolver\<close>

definition get_mujoco_path :: "lib \<Rightarrow> string \<Rightarrow> xml_node \<Rightarrow> string \<Rightarrow> string" where
  "get_mujoco_path L xmlFile inp attr =
     (let xmlPath = parent_path L xmlFile
      in (case attribute (child_or_null inp ''compiler'') attr of
            None \<Rightarrow> xmlPath
          | Some dir \<Rightarrow>
              if is_absolute L dir then dir
              else absolute L (path_append L xmlPath dir)))"

section \<open>Merging one entity\<close>

text \<open>
  Each of the ten blocks of \<^verbatim>\<open>merge_mujoco_model\<close> (lines 277-328) fetches or creates the
  section node of the output root, runs the section's merger on that handle and so edits
  the node in place. \<open>in_section\<close> is one such block; mergers that log nothing return
  an empty log.
\<close>

type_synonym merger = "xml_node \<Rightarrow> xml_node \<times> event list"

definition in_section :: "xml_node \<Rightarrow> string \<Rightarrow> merger \<Rightarrow> xml_node \<times> event list" where
  "in_section out tag f =
     (let (out1, sec) = get_child_or_create out tag;
          (sec', log) = f sec
      in (put_child out1 tag sec', log))"

definition section_mergers :: "lib \<Rightarrow> string \<Rightarrow> string \<Rightarrow> xml_node \<Rightarrow> (string \<times> merger) list" where
  "section_mergers L robot xmlFile root =
     [(''compiler'', merge_mujoco_compiler xmlFile (child_or_null root ''compiler'')),
      (''size'', \<lambda>sec. (merge_mujoco_size L (child_or_null root ''size'') sec, [])),
      (''option'', merge_mujoco_option xmlFile (child_or_null root ''option'')),
      (''default'', \<lambda>sec. merge_mujoco_default xmlFile (child_or_null root ''default'') sec robot),
      (''visual'', merge_mujoco_visual xmlFile (child_or_null root ''visual'')),
      (''asset'', \<lambda>sec.
         (merge_mujoco_asset L (child_or_null root ''asset'') sec
            (get_mujoco_path L xmlFile root ''meshdir'')
            (get_mujoco_path L xmlFile root ''texturedir'') robot, [])),
      (''contact'', \<lambda>sec. (merge_mujoco_contact (child_or_null root ''contact'') sec robot, [])),
      (''actuator'', \<lambda>sec. (merge_mujoco_actuator (child_or_null root ''actuator'') sec robot, [])),
      (''sensor'', \<lambda>sec. (merge_mujoco_sensor (child_or_null root ''sensor'') sec robot, [])),
      (''worldbody'', \<lambda>sec. (merge_mujoco_worldbody (child_or_null root ''worldbody'') sec robot, []))]"

definition run_section :: "xml_node \<times> event list \<Rightarrow> string \<times> merger \<Rightarrow> xml_node \<times> event list" where
  "run_section st tf =
     (let (out, log) = st;
          (tag, f) = tf;
          (out', log') = in_section out tag f
      in (out', log @ log'))"

definition merge_sections ::
  "lib \<Rightarrow> string \<Rightarrow> string \<Rightarrow> xml_node \<Rightarrow> xml_node \<Rightarrow> xml_node \<times> event list" where
  "merge_sections L robot xmlFile root out =
     foldl run_section (out, []) (section_mergers L robot xmlFile root)"

text \<open>
  The file system is a function from a path to the document \<^verbatim>\<open>load_file\<close> parses there,
  \<open>None\<close> when the file cannot be parsed. A document is the node above the root element.
  \<^verbatim>\<open>error_and_throw\<close> logs the message and throws \<^verbatim>\<open>std::runtime_error\<close> with it.
\<close>

type_synonym files = "string \<Rightarrow> xml_node option"

definition error_and_throw :: "string \<Rightarrow> event list \<times> (failure + xml_node)" where
  "error_and_throw msg = ([Error msg], Inl (Runtime_error msg))"

definition merge_mujoco_model ::
  "lib \<Rightarrow> files \<Rightarrow> string \<Rightarrow> string \<Rightarrow> xml_node \<Rightarrow> event list \<times> (failure + xml_node)" where
  "merge_mujoco_model L fs robot xmlFile out =
     (case fs xmlFile of
        None \<Rightarrow>
          (let (log, r) = error_and_throw (''Failed to load '' @ xmlFile)
           in (Load_file xmlFile # log, r))
      | Some doc \<Rightarrow>
          (case child doc ''mujoco'' of
             None \<Rightarrow>
               (let (log, r) = error_and_throw (''No mujoco root node in '' @ xmlFile)
                in (Load_file xmlFile # log, r))
           | Some root \<Rightarrow>
               (let (out', log) = merge_sections L robot xmlFile root out
                in (Load_file xmlFile # log, Inr out'))))"

section \<open>Merge orchestrator\<close>

text \<open>
  The loop of lines 342-345 runs over the indices of \<^verbatim>\<open>robots\<close> and reads \<^verbatim>\<open>xmlFiles[i]\<close>
  unchecked; a read past the end of \<^verbatim>\<open>xmlFiles\<close> is undefined in C++ and is a failure
  of the model. An exception of \<^verbatim>\<open>merge_mujoco_model\<close> leaves the loop and the function.
\<close>

function merge_loop ::
  "lib \<Rightarrow> files \<Rightarrow> string list \<Rightarrow> string list \<Rightarrow> nat \<Rightarrow> xml_node
     \<Rightarrow> event list \<times> (failure + xml_node)" where
  "merge_loop L fs robots xmlFiles i out =
     (if i < length robots
      then (if length xmlFiles \<le> i then ([], Inl (Index_out_of_range i))
            else (case merge_mujoco_model L fs (robots ! i) (xmlFiles ! i) out of
                    (log, Inl e) \<Rightarrow> (log, Inl e)
                  | (log, Inr out') \<Rightarrow>
                      (let (log', r) = merge_loop L fs robots xmlFiles (Suc i) out'
                       in (log @ log', r))))
      else ([], Inr out))"
  by pat_completeness auto
termination
  by (relation "measure (\<lambda>(L, fs, robots, xmlFiles, i, out). length robots - i)") auto

declare merge_loop.simps [simp del]

definition outFile :: string where
  "outFile = ''/tmp/mc_mujoco.xml''"

definition new_root :: xml_node where
  "new_root = append_attribute (Node ''mujoco'' [] []) ''model'' ''mc_mujoco''"

text \<open>
  \<^verbatim>\<open>merge_mujoco_models\<close> (lines 332-351) returns the path it answers with, or the
  failure that left it, and the events in the order they happened. The saved document
  is the document node holding the output root.
\<close>

definition merge_mujoco_models ::
  "lib \<Rightarrow> files \<Rightarrow> string list \<Rightarrow> string list \<Rightarrow> event list \<times> (failure + string)" where
  "merge_mujoco_models L fs robots xmlFiles =
     (if length xmlFiles = 1 then ([], Inr (xmlFiles ! 0))
      else (case merge_loop L fs robots xmlFiles 0 new_root of
              (log, Inl e) \<Rightarrow> (log, Inl e)
            | (log, Inr out) \<Rightarrow> (log @ [Save outFile (Node [] [] [out])], Inr outFile)))"

section \<open>An instance of the library capabilities\<close>

text \<open>
  To run the model on concrete documents the library operations are instantiated for
  POSIX paths and decimal numerals. A path is absolute when it starts with a slash;
  \<open>posix_append\<close> joins two paths with one separator; \<open>posix_absolute\<close> resolves a
  relative path against the current directory \<open>cwd\<close>; \<open>posix_parent_path\<close> drops the
  last component and the separators before it. \<open>dec_as_int\<close> reads an optionally signed
  decimal numeral after leading blanks, stops at the first character that is no digit and
  saturates at the bounds of \<^verbatim>\<open>int\<close>; \<open>dec_of_int\<close> writes the signed decimal numeral.
\<close>

definition posix_is_absolute :: "string \<Rightarrow> bool" where
  "posix_is_absolute p = (p \<noteq> [] \<and> hd p = CHR ''/'')"

definition posix_append :: "string \<Rightarrow> string \<Rightarrow> string" where
  "posix_append d p =
     (if p = [] then d
      else if d = [] \<or> last d = CHR ''/'' \<or> hd p = CHR ''/'' then d @ p
      else d @ ''/'' @ p)"

definition posix_absolute :: "string \<Rightarrow> string \<Rightarrow> string" where
  "posix_absolute cwd p = (if posix_is_absolute p then p else posix_append cwd p)"

definition posix_parent_path :: "string \<Rightarrow> string" where
  "posix_parent_path p =
     (let d = rev (dropWhile (\<lambda>c. c \<noteq> CHR ''/'') (rev p));
          stripped = rev (dropWhile (\<lambda>c. c = CHR ''/'') (rev d))
      in if d \<noteq> [] \<and> stripped = [] then ''/'' else stripped)"

definition is_digit :: "char \<Rightarrow> bool" where
  "is_digit c = (48 \<le> (of_char c :: nat) \<and> (of_char c :: nat) \<le> 57)"

definition digit_val :: "char \<Rightarrow> nat" where
  "digit_val c = of_char c - 48"

definition digit_char :: "nat \<Rightarrow> char" where
  "digit_char d = ''0123456789'' ! d"

definition is_space :: "char \<Rightarrow> bool" where
  "is_space c = (c \<in> {CHR '' '', CHR 0x09, CHR 0x0A, CHR 0x0D})"

definition dec_value :: "string \<Rightarrow> nat" where
  "dec_value s = foldl (\<lambda>a c. a * 10 + digit_val c) 0 (takeWhile is_digit s)"

fun dec_of_nat :: "nat \<Rightarrow> string" where
  "dec_of_nat n = (if n < 10 then [digit_char n] else dec_of_nat (n div 10) @ [digit_char (n mod 10)])"

declare dec_of_nat.simps [simp del]

definition dec_as_int :: "string \<Rightarrow> 32 word" where
  "dec_as_int s =
     (let s1 = dropWhile is_space s;
          negative = (s1 \<noteq> [] \<and> hd s1 = CHR ''-'');
          s2 = (if s1 \<noteq> [] \<and> (hd s1 = CHR ''+'' \<or> hd s1 = CHR ''-'') then tl s1 else s1);
          m = dec_value s2
      in if negative
         then (if 2147483648 < m then word_of_int (- 2147483648) else word_of_int (- int m))
         else (if 2147483647 < m then word_of_int 2147483647 else word_of_int (int m)))"

definition dec_of_int :: "32 word \<Rightarrow> string" where
  "dec_of_int w = (if sint w < 0 then ''-'' @ dec_of_nat (nat (- sint w)) else dec_of_nat (nat (sint w)))"

definition posix_lib :: "string \<Rightarrow> lib" where
  "posix_lib cwd =
     \<lparr>as_int = dec_as_int, int_to_string = dec_of_int,
      is_absolute = posix_is_absolute, absolute = posix_absolute cwd,
      path_append = posix_append, parent_path = posix_parent_path\<rparr>"

section \<open>Reading the event list\<close>

text \<open>
  Projections of the event list used to state what was logged, loaded and saved: the
  conflict warnings about one attribute, the files passed to \<^verbatim>\<open>load_file\<close>, and the
  documents saved.
\<close>

fun critical_attr :: "event \<Rightarrow> string option" where
  "critical_attr (Critical node a fileIn v vo) = Some a"
| "critical_attr (Error msg) = None"
| "critical_attr (Load_file f) = None"
| "critical_attr (Save f doc) = None"

definition diagnostics_on :: "string \<Rightarrow> event list \<Rightarrow> event list" where
  "diagnostics_on a log = filter (\<lambda>e. critical_attr e = Some a) log"

fun loaded :: "event list \<Rightarrow> string list" where
  "loaded [] = []"
| "loaded (Load_file f # es) = f # loaded es"
| "loaded (e # es) = loaded es"

fun saved :: "event list \<Rightarrow> (string \<times> xml_node) list" where
  "saved [] = []"
| "saved (Save f doc # es) = (f, doc) # saved es"
| "saved (e # es) = saved es"

text \<open>A merger keeps names when the node it returns has the name of the node it got.\<close>

definition keeps_name :: "merger \<Rightarrow> bool" where
  "keeps_name f = (\<forall>sec. name (fst (f sec)) = name sec)"

text \<open>
  A file loads when \<^verbatim>\<open>load_file\<close> parses it and the document has a \<^verbatim>\<open>mujoco\<close> child;
  \<open>root_of\<close> is that child. \<open>load_error\<close> is the message of the exception otherwise.
\<close>

definition loads_ok :: "files \<Rightarrow> string \<Rightarrow> bool" where
  "loads_ok fs f = (case fs f of None \<Rightarrow> False | Some doc \<Rightarrow> child doc ''mujoco'' \<noteq> None)"

definition root_of :: "files \<Rightarrow> string \<Rightarrow> xml_node" where
  "root_of fs f = (case fs f of None \<Rightarrow> null_node | Some doc \<Rightarrow> child_or_null doc ''mujoco'')"

definition load_error :: "files \<Rightarrow> string \<Rightarrow> string" where
  "load_error fs f =
     (if fs f = None then ''Failed to load '' @ f else ''No mujoco root node in '' @ f)"

definition section_tags :: "string list" where
  "section_tags =
     [''compiler'', ''size'', ''option'', ''default'', ''visual'', ''asset'', ''contact'',
      ''actuator'', ''sensor'', ''worldbody'']"

fun is_critical :: "event \<Rightarrow> bool" where
  "is_critical (Critical node a fileIn v vo) = True"
| "is_critical (Error msg) = False"
| "is_critical (Load_file f) = False"
| "is_critical (Save f doc) = False"

section \<open>Example documents\<close>

text \<open>
  Two small entities used to run the orchestrator: \<^verbatim>\<open>/m/a.xml\<close> and \<^verbatim>\<open>/m/b.xml\<close> both
  declare the counter \<^verbatim>\<open>njmax\<close> and the compiler attribute \<^verbatim>\<open>angle\<close>, with different
  values; \<^verbatim>\<open>/m/c.xml\<close> parses but has no \<^verbatim>\<open>mujoco\<close> root; no other path can be loaded.
\<close>

definition doc_a :: xml_node where
  "doc_a = Node [] []
     [Node ''mujoco'' [(''model'', ''a'')]
        [Node ''compiler'' [(''angle'', ''radian'')] [],
         Node ''size'' [(''njmax'', ''10'')] [],
         Node ''worldbody'' [] [Node ''body'' [(''name'', ''arm'')] []]]]"

definition doc_b :: xml_node where
  "doc_b = Node [] []
     [Node ''mujoco'' [(''model'', ''b'')]
        [Node ''compiler'' [(''angle'', ''degree'')] [],
         Node ''size'' [(''njmax'', ''5'')] []]]"

definition doc_c :: xml_node where
  "doc_c = Node [] [] [Node ''robot'' [] []]"

definition example_files :: files where
  "example_files f =
     (if f = ''/m/a.xml'' then Some doc_a
      else if f = ''/m/b.xml'' then Some doc_b
      else if f = ''/m/c.xml'' then Some doc_c
      else None)"

text \<open>The output roots of merging the first two entities, in either order.\<close>

definition merged_ab :: xml_node where
  "merged_ab =
     Node ''mujoco'' [(''model'', ''mc_mujoco'')]
       [Node ''compiler'' [(''angle'', ''radian'')] [],
        Node ''size'' [(''njmax'', ''15'')] [], Node ''option'' [] [],
        Node ''default'' [] [], Node ''visual'' [] [],
        Node ''asset'' [] [], Node ''contact'' [] [],
        Node ''actuator'' [] [], Node ''sensor'' [] [],
        Node ''worldbody'' [] [Node ''body'' [(''name'', ''r1_arm'')] []]]"

definition merged_ba :: xml_node where
  "merged_ba =
     Node ''mujoco'' [(''model'', ''mc_mujoco'')]
       [Node ''compiler'' [(''angle'', ''degree'')] [],
        Node ''size'' [(''njmax'', ''15'')] [], Node ''option'' [] [],
        Node ''default'' [] [], Node ''visual'' [] [],
        Node ''asset'' [] [], Node ''contact'' [] [],
        Node ''actuator'' [] [], Node ''sensor'' [] [],
        Node ''worldbody'' [] [Node ''body'' [(''name'', ''r1_arm'')] []]]"

text \<open>
  Two more documents, \<^verbatim>\<open>/m/p.xml\<close> and \<^verbatim>\<open>/m/q.xml\<close>, that disagree at every place where
  attributes are merged: in the \<^verbatim>\<open>compiler\<close> and \<^verbatim>\<open>option\<close> sections, in the \<^verbatim>\<open>flag\<close>
  child of \<^verbatim>\<open>option\<close>, in a leaf of \<^verbatim>\<open>default\<close> and in a child of \<^verbatim>\<open>visual\<close>; and the
  output roots of merging them in either order.
\<close>

definition doc_p :: xml_node where
  "doc_p = Node [] []
     [Node ''mujoco'' [(''model'', ''p'')]
        [Node ''compiler'' [(''angle'', ''radian'')] [],
         Node ''size'' [(''njmax'', ''10'')] [],
         Node ''option'' [(''integrator'', ''Euler'')]
           [Node ''flag'' [(''gravity'', ''enable'')] []],
         Node ''default'' [] [Node ''geom'' [(''rgba'', ''1 0 0 1'')] []],
         Node ''visual'' [] [Node ''global'' [(''offwidth'', ''800'')] []]]]"

definition doc_q :: xml_node where
  "doc_q = Node [] []
     [Node ''mujoco'' [(''model'', ''q'')]
        [Node ''compiler'' [(''angle'', ''degree'')] [],
         Node ''size'' [(''njmax'', ''5'')] [],
         Node ''option'' [(''integrator'', ''RK4'')]
           [Node ''flag'' [(''gravity'', ''disable'')] []],
         Node ''default'' [] [Node ''geom'' [(''rgba'', ''0 0 1 1'')] []],
         Node ''visual'' [] [Node ''global'' [(''offwidth'', ''1024'')] []]]]"

definition conflict_files :: files where
  "conflict_files f =
     (if f = ''/m/p.xml'' then Some doc_p
      else if f = ''/m/q.xml'' then Some doc_q
      else None)"

definition merged_pq :: xml_node where
  "merged_pq =
     Node ''mujoco'' [(''model'', ''mc_mujoco'')]
       [Node ''compiler'' [(''angle'', ''radian'')] [],
        Node ''size'' [(''njmax'', ''15'')] [],
        Node ''option'' [(''integrator'', ''Euler'')]
          [Node ''flag'' [(''gravity'', ''enable'')] []],
        Node ''default'' [] [Node ''geom'' [(''rgba'', ''1 0 0 1'')] []],
        Node ''visual'' [] [Node ''global'' [(''offwidth'', ''800'')] []],
        Node ''asset'' [] [], Node ''contact'' [] [],
        Node ''actuator'' [] [], Node ''sensor'' [] [],
        Node ''worldbody'' [] []]"

definition merged_qp :: xml_node where
  "merged_qp =
     Node ''mujoco'' [(''model'', ''mc_mujoco'')]
       [Node ''compiler'' [(''angle'', ''degree'')] [],
        Node ''size'' [(''njmax'', ''15'')] [],
        Node ''option'' [(''integrator'', ''RK4'')]
          [Node ''flag'' [(''gravity'', ''disable'')] []],
        Node ''default'' [] [Node ''geom'' [(''rgba'', ''0 0 1 1'')] []],
        Node ''visual'' [] [Node ''global'' [(''offwidth'', ''1024'')] []],
        Node ''asset'' [] [], Node ''contact'' [] [],
        Node ''actuator'' [] [], Node ''sensor'' [] [],
        Node ''worldbody'' [] []]"

section \<open>Reading the merged sections\<close>

text \<open>
  Two functions used to state what a merged section holds. \<open>accumulate\<close> is the value of a
  size counter after one more entity, from the value so far and the entity's value.
  \<open>first_value\<close> is the value of an attribute in the first node of a list that carries it.
\<close>

definition accumulate :: "lib \<Rightarrow> string option \<Rightarrow> string option \<Rightarrow> string option" where
  "accumulate L s v =
     (case v of
        None \<Rightarrow> s
      | Some vi \<Rightarrow>
          (case s of
             None \<Rightarrow> Some vi
           | Some vo \<Rightarrow> Some (int_to_string L (as_int L vo + as_int L vi))))"

fun first_value :: "string \<Rightarrow> xml_node list \<Rightarrow> string option" where
  "first_value a [] = None"
| "first_value a (n # ns) = (case attribute n a of Some v \<Rightarrow> Some v | None \<Rightarrow> first_value a ns)"

section \<open>Facts about the tree operations\<close>

lemma name_set_value [simp]: "name (set_value n a v) = name n"
  and children_set_value [simp]: "children (set_value n a v) = children n"
  and name_append_attribute [simp]: "name (append_attribute n a v) = name n"
  and children_append_attribute [simp]: "children (append_attribute n a v) = children n"
  and name_append_copy [simp]: "name (append_copy n c) = name n"
  and attributes_append_copy [simp]: "attributes (append_copy n c) = attributes n"
  and children_append_copy [simp]: "children (append_copy n c) = children n @ [c]"
  and name_append_child [simp]: "name (append_child n nm) = name n"
  and name_put_child [simp]: "name (put_child n nm c) = name n"
  and attributes_put_child [simp]: "attributes (put_child n nm c) = attributes n"
  by (simp_all add: set_value_def append_attribute_def append_copy_def append_child_def
        put_child_def)

lemma map_of_set_first:
  "map_of (set_first b v xs) a = (if a = b \<and> map_of xs b \<noteq> None then Some v else map_of xs a)"
  by (induction xs) auto

lemma attribute_set_value:
  "attribute (set_value n b v) a =
     (if a = b \<and> attribute n b \<noteq> None then Some v else attribute n a)"
  by (simp add: attribute_def set_value_def map_of_set_first)

lemma attribute_append_attribute:
  "attribute (append_attribute n b v) a =
     (case attribute n a of Some x \<Rightarrow> Some x | None \<Rightarrow> if a = b then Some v else None)"
  by (simp add: attribute_def append_attribute_def map_add_def split: option.splits)

text \<open>Unfolding these evaluates the decimal instance on numerals.\<close>

lemmas dec_eval =
  dec_of_int_def dec_as_int_def dec_value_def is_digit_def is_space_def digit_val_def
  dec_of_nat.simps digit_char_def

section \<open>The orchestrator on one entity and on none\<close>

text \<open>
  C3. When the list of file paths has exactly one element, \<^verbatim>\<open>merge_mujoco_models\<close>
  returns that path and nothing else happens: no file is loaded, no warning is logged
  and no document is saved, whatever the list of entity identifiers is.
\<close>

theorem single_entity_returns_input_path:
  "length xmlFiles = 1 \<Longrightarrow>
     merge_mujoco_models L fs robots xmlFiles = ([], Inr (xmlFiles ! 0))"
  by (simp add: merge_mujoco_models_def)

theorem single_entity_returns_input_path_witness:
  "length [''/home/u/robot.xml''] = 1 \<and>
   merge_mujoco_models (posix_lib ''/work'') (\<lambda>f. None) [''r1''] [''/home/u/robot.xml'']
     = ([], Inr ''/home/u/robot.xml'')"
  using single_entity_returns_input_path
    [of "[''/home/u/robot.xml'']" "posix_lib ''/work''" "\<lambda>f. None" "[''r1'']"]
  by simp

text \<open>
  C10. With no entity and no file path the orchestrator does not fail: it loads nothing,
  saves to the fixed path a document whose only node is the root \<^verbatim>\<open>mujoco\<close> with the
  attribute \<^verbatim>\<open>model="mc_mujoco"\<close> and no section node, and returns that path.
\<close>

theorem empty_lists_write_bare_root:
  "merge_mujoco_models L fs [] [] =
     ([Save ''/tmp/mc_mujoco.xml'' (Node [] [] [Node ''mujoco'' [(''model'', ''mc_mujoco'')] []])],
      Inr ''/tmp/mc_mujoco.xml'')"
  by (simp add: merge_mujoco_models_def merge_loop.simps new_root_def append_attribute_def
        outFile_def)

section \<open>Accumulation of the size counters\<close>

lemma attribute_merge_size_attr_same:
  "attribute (merge_size_attr L inp out a) a =
     (case attribute inp a of
        None \<Rightarrow> attribute out a
      | Some vi \<Rightarrow>
          (case attribute out a of
             None \<Rightarrow> Some vi
           | Some vo \<Rightarrow> Some (int_to_string L (as_int L vo + as_int L vi))))"
  by (simp add: merge_size_attr_def attribute_set_value attribute_append_attribute
        split: option.splits)

lemma attribute_merge_size_attr_other:
  "a \<noteq> b \<Longrightarrow> attribute (merge_size_attr L inp out b) a = attribute out a"
  by (simp add: merge_size_attr_def attribute_set_value attribute_append_attribute
        split: option.splits)

lemma attribute_foldl_merge_size_attr_notin:
  "a \<notin> set bs \<Longrightarrow> attribute (foldl (merge_size_attr L inp) out bs) a = attribute out a"
  by (induction bs arbitrary: out) (auto simp: attribute_merge_size_attr_other)

lemma attribute_foldl_merge_size_attr_in:
  "distinct bs \<Longrightarrow> a \<in> set bs \<Longrightarrow>
     attribute (foldl (merge_size_attr L inp) out bs) a
       = attribute (merge_size_attr L inp out a) a"
proof (induction bs arbitrary: out)
  case Nil
  then show ?case by simp
next
  case (Cons b bs)
  show ?case
  proof (cases "a = b")
    case True
    with Cons.prems have "a \<notin> set bs" by simp
    with True show ?thesis by (simp add: attribute_foldl_merge_size_attr_notin)
  next
    case False
    with Cons.prems have "a \<in> set bs" "distinct bs" by simp_all
    with Cons.IH [of "merge_size_attr L inp out b"] False show ?thesis
      by (simp add: attribute_merge_size_attr_same attribute_merge_size_attr_other
            split: option.splits)
  qed
qed

lemma distinct_size_attributes: "distinct size_attributes"
  by (simp add: size_attributes_def)

lemma attribute_merge_mujoco_size:
  "a \<in> set size_attributes \<Longrightarrow>
     attribute (merge_mujoco_size L inp out) a = attribute (merge_size_attr L inp out a) a"
  by (simp add: merge_mujoco_size_def attribute_foldl_merge_size_attr_in
        distinct_size_attributes)

lemma sint_add_in_range:
  fixes x y :: "32 word"
  assumes "- 2147483648 \<le> sint x + sint y" "sint x + sint y < 2147483648"
  shows "sint (x + y) = sint x + sint y"
proof -
  have "sint (x + y) = signed_take_bit 31 (sint x + sint y)"
    by (simp add: sint_word_ariths)
  also have "\<dots> = sint x + sint y"
    using assms by (intro signed_take_bit_int_eq_self) simp_all
  finally show ?thesis .
qed

text \<open>
  C4. For each counter of the fixed list, \<^verbatim>\<open>merge_mujoco_size\<close> leaves the output value
  alone when the source lacks the counter, copies the source's text when only the source
  has it, and otherwise stores the numeral of the sum of the two values read as
  \<^verbatim>\<open>int\<close>, added as \<^verbatim>\<open>int\<close> (32 bits). Whenever the sum of the two integers fits an
  \<^verbatim>\<open>int\<close>, the stored numeral is that of their sum: with \<^verbatim>\<open>njmax="10"\<close> in the output
  and \<^verbatim>\<open>njmax="5"\<close> in the source the result is \<^verbatim>\<open>njmax="15"\<close>.
\<close>

theorem size_counter_accumulates:
  assumes "a \<in> set size_attributes"
  shows "attribute (merge_mujoco_size L inp out) a =
       (case attribute inp a of
          None \<Rightarrow> attribute out a
        | Some vi \<Rightarrow>
            (case attribute out a of
               None \<Rightarrow> Some vi
             | Some vo \<Rightarrow> Some (int_to_string L (as_int L vo + as_int L vi)))) \<and>
     (\<forall>vo vi. attribute out a = Some vo \<longrightarrow> attribute inp a = Some vi \<longrightarrow>
        - 2147483648 \<le> sint (as_int L vo) + sint (as_int L vi) \<longrightarrow>
        sint (as_int L vo) + sint (as_int L vi) < 2147483648 \<longrightarrow>
        (\<exists>w. attribute (merge_mujoco_size L inp out) a = Some (int_to_string L w) \<and>
             sint w = sint (as_int L vo) + sint (as_int L vi)))"
proof -
  have f: "attribute (merge_mujoco_size L inp out) a =
       (case attribute inp a of
          None \<Rightarrow> attribute out a
        | Some vi \<Rightarrow>
            (case attribute out a of
               None \<Rightarrow> Some vi
             | Some vo \<Rightarrow> Some (int_to_string L (as_int L vo + as_int L vi))))"
    using assms by (simp add: attribute_merge_mujoco_size attribute_merge_size_attr_same)
  have "\<exists>w. attribute (merge_mujoco_size L inp out) a = Some (int_to_string L w) \<and>
             sint w = sint (as_int L vo) + sint (as_int L vi)"
    if "attribute out a = Some vo" "attribute inp a = Some vi"
      "- 2147483648 \<le> sint (as_int L vo) + sint (as_int L vi)"
      "sint (as_int L vo) + sint (as_int L vi) < 2147483648" for vo vi
    using f that sint_add_in_range [of "as_int L vo" "as_int L vi"]
    by (intro exI [of _ "as_int L vo + as_int L vi"]) simp
  with f show ?thesis by blast
qed

theorem size_counter_accumulates_witness:
  "''njmax'' \<in> set size_attributes \<and>
   attribute (merge_mujoco_size (posix_lib ''/work'')
                (Node ''size'' [(''njmax'', ''5'')] [])
                (Node ''size'' [(''njmax'', ''10'')] [])) ''njmax'' = Some ''15'' \<and>
   attribute (merge_mujoco_size (posix_lib ''/work'')
                (Node ''size'' [(''njmax'', ''5'')] [])
                (Node ''size'' [] [])) ''njmax'' = Some ''5'' \<and>
   attribute (Node ''size'' [(''njmax'', ''10'')] []) ''njmax'' = Some ''10'' \<and>
   attribute (Node ''size'' [(''njmax'', ''5'')] []) ''njmax'' = Some ''5'' \<and>
   sint (as_int (posix_lib ''/work'') ''10'') + sint (as_int (posix_lib ''/work'') ''5'') = 15 \<and>
   (\<exists>w. attribute (merge_mujoco_size (posix_lib ''/work'')
                (Node ''size'' [(''njmax'', ''5'')] [])
                (Node ''size'' [(''njmax'', ''10'')] [])) ''njmax''
          = Some (int_to_string (posix_lib ''/work'') w) \<and>
        sint w = 15)"
proof -
  let ?L = "posix_lib ''/work''"
  let ?inp = "Node ''size'' [(''njmax'', ''5'')] []"
  let ?out = "Node ''size'' [(''njmax'', ''10'')] []"
  have m: "''njmax'' \<in> set size_attributes" by (simp add: size_attributes_def)
  have s: "dec_of_int (dec_as_int ''10'' + dec_as_int ''5'') = ''15''"
    by (simp add: dec_eval)
  have o: "attribute ?out ''njmax'' = Some ''10''" by (simp add: attribute_def)
  have i: "attribute ?inp ''njmax'' = Some ''5''" by (simp add: attribute_def)
  have v: "sint (as_int ?L ''10'') + sint (as_int ?L ''5'') = 15"
    by (simp add: posix_lib_def dec_eval)
  note t = size_counter_accumulates [OF m, of ?L ?inp ?out]
  from conjunct1 [OF t] o i s
  have r1: "attribute (merge_mujoco_size ?L ?inp ?out) ''njmax'' = Some ''15''"
    by (simp add: posix_lib_def)
  from conjunct1 [OF size_counter_accumulates [OF m, of ?L ?inp "Node ''size'' [] []"]] i
  have r2: "attribute (merge_mujoco_size ?L ?inp (Node ''size'' [] [])) ''njmax'' = Some ''5''"
    by (simp add: attribute_def)
  have lo: "- 2147483648 \<le> sint (as_int ?L ''10'') + sint (as_int ?L ''5'')"
    by (simp add: v)
  have hi: "sint (as_int ?L ''10'') + sint (as_int ?L ''5'') < 2147483648"
    by (simp add: v)
  from conjunct2 [OF t, THEN spec, THEN spec, THEN mp, OF o, THEN mp, OF i, THEN mp, OF lo,
      THEN mp, OF hi]
  have r3: "\<exists>w. attribute (merge_mujoco_size ?L ?inp ?out) ''njmax'' = Some (int_to_string ?L w) \<and>
              sint w = 15"
    by (simp only: v)
  from m r1 r2 o i v r3 show ?thesis by (intro conjI) assumption+
qed

text \<open>
  C4, where the sum does not fit: with \<^verbatim>\<open>njmax="2147483647"\<close> in the output and
  \<^verbatim>\<open>njmax="1"\<close> in the source the addition wraps and the stored value is
  \<^verbatim>\<open>njmax="-2147483648"\<close>, which is not the sum of the two integers.
\<close>

theorem size_counter_sum_wraps_counterexample:
  "attribute (Node ''size'' [(''njmax'', ''2147483647'')] []) ''njmax'' = Some ''2147483647'' \<and>
   attribute (Node ''size'' [(''njmax'', ''1'')] []) ''njmax'' = Some ''1'' \<and>
   sint (as_int (posix_lib ''/work'') ''2147483647'') = 2147483647 \<and>
   sint (as_int (posix_lib ''/work'') ''1'') = 1 \<and>
   attribute (merge_mujoco_size (posix_lib ''/work'')
                (Node ''size'' [(''njmax'', ''1'')] [])
                (Node ''size'' [(''njmax'', ''2147483647'')] [])) ''njmax''
     = Some ''-2147483648'' \<and>
   sint (as_int (posix_lib ''/work'') ''-2147483648'') = - 2147483648 \<and>
   sint (as_int (posix_lib ''/work'') ''-2147483648'') \<noteq>
     sint (as_int (posix_lib ''/work'') ''2147483647'') + sint (as_int (posix_lib ''/work'') ''1'')"
proof -
  let ?L = "posix_lib ''/work''"
  have a: "sint (as_int ?L ''2147483647'') = 2147483647"
    by (simp add: posix_lib_def dec_eval)
  have b: "sint (as_int ?L ''1'') = 1"
    by (simp add: posix_lib_def dec_eval)
  have c: "sint (as_int ?L ''-2147483648'') = - 2147483648"
    by (simp add: posix_lib_def dec_eval)
  have s: "int_to_string ?L (as_int ?L ''2147483647'' + as_int ?L ''1'') = ''-2147483648''"
    by (simp add: posix_lib_def dec_eval)
  have m: "''njmax'' \<in> set size_attributes" by (simp add: size_attributes_def)
  have r: "attribute (merge_mujoco_size ?L (Node ''size'' [(''njmax'', ''1'')] [])
                (Node ''size'' [(''njmax'', ''2147483647'')] [])) ''njmax'' = Some ''-2147483648''"
  proof -
    have o: "attribute (Node ''size'' [(''njmax'', ''2147483647'')] []) ''njmax'' = Some ''2147483647''"
      by (simp add: attribute_def)
    have i: "attribute (Node ''size'' [(''njmax'', ''1'')] []) ''njmax'' = Some ''1''"
      by (simp add: attribute_def)
    show ?thesis
      by (simp only: attribute_merge_mujoco_size [OF m] attribute_merge_size_attr_same o i s
            option.case)
  qed
  show ?thesis using a b c r by (simp add: attribute_def)
qed

section \<open>First value wins on a conflict\<close>

lemma diagnostics_on_append [simp]:
  "diagnostics_on a (xs @ ys) = diagnostics_on a xs @ diagnostics_on a ys"
  by (simp add: diagnostics_on_def)

lemma diagnostics_on_Nil [simp]: "diagnostics_on a [] = []"
  by (simp add: diagnostics_on_def)

lemma merge_attr_keeps:
  assumes "attribute out a = Some vo"
  shows "attribute (fst (merge_attr node fileIn exclude (out, log) kv)) a = Some vo"
  using assms
  by (cases kv) (simp add: merge_attr_def attribute_append_attribute split: option.splits)

lemma merge_attr_log:
  assumes "a \<notin> set exclude" "attribute out a = Some vo"
  shows "diagnostics_on a (snd (merge_attr node fileIn exclude (out, log) kv)) =
           diagnostics_on a log @
             (if fst kv = a \<and> snd kv \<noteq> vo then [Critical node a fileIn (snd kv) vo] else [])"
  using assms
  by (cases kv) (auto simp: merge_attr_def diagnostics_on_def split: option.splits)

lemma foldl_merge_attr_existing:
  assumes "a \<notin> set exclude" "attribute out a = Some vo"
  shows "attribute (fst (foldl (merge_attr node fileIn exclude) (out, log) xs)) a = Some vo \<and>
         diagnostics_on a (snd (foldl (merge_attr node fileIn exclude) (out, log) xs)) =
           diagnostics_on a log @
             map (\<lambda>kv. Critical node a fileIn (snd kv) vo)
               (filter (\<lambda>kv. fst kv = a \<and> snd kv \<noteq> vo) xs)"
  using assms(2)
proof (induction xs arbitrary: out log)
  case Nil
  then show ?case by simp
next
  case (Cons kv xs)
  obtain out1 log1 where st: "merge_attr node fileIn exclude (out, log) kv = (out1, log1)"
    by (cases "merge_attr node fileIn exclude (out, log) kv")
  from merge_attr_keeps [OF Cons.prems, of node fileIn exclude log kv] st
  have k: "attribute out1 a = Some vo" by simp
  from merge_attr_log [OF assms(1) Cons.prems, of node fileIn log kv] st
  have l: "diagnostics_on a log1 = diagnostics_on a log @
             (if fst kv = a \<and> snd kv \<noteq> vo then [Critical node a fileIn (snd kv) vo] else [])"
    by simp
  from Cons.IH [OF k, of log1] st l show ?case by simp
qed

lemma filter_key_distinct:
  "distinct (map fst xs) \<Longrightarrow> (a, v) \<in> set xs \<Longrightarrow> filter (\<lambda>kv. fst kv = a) xs = [(a, v)]"
proof (induction xs)
  case Nil
  then show ?case by simp
next
  case (Cons x xs)
  show ?case
  proof (cases "fst x = a")
    case True
    with Cons.prems have n: "a \<notin> fst ` set xs" by auto
    then have "\<forall>kv \<in> set xs. fst kv \<noteq> a" by force
    then have "filter (\<lambda>kv. fst kv = a) xs = []" by (simp add: filter_empty_conv)
    moreover from n have "(a, v) \<notin> set xs" by force
    with True Cons.prems have "x = (a, v)" by simp
    ultimately show ?thesis by simp
  next
    case False
    with Cons show ?thesis by auto
  qed
qed

text \<open>
  C5. Let the source node carry the attribute \<open>a\<close> once, with value \<open>vi\<close>, let \<open>a\<close> not be
  excluded, and let the output node already carry \<open>a\<close> with value \<open>vo\<close>. After
  \<^verbatim>\<open>merge_mujoco_node\<close> the output still carries \<open>vo\<close>. When the two texts differ exactly
  one warning about \<open>a\<close> is logged, and it names the section, the attribute, the source
  file, the losing value \<open>vi\<close> and the kept value \<open>vo\<close>; when they are equal no warning
  about \<open>a\<close> is logged.
\<close>

theorem conflict_keeps_first_value:
  assumes "a \<notin> set exclude"
    and "attribute out a = Some vo"
    and "distinct (map fst (attributes inp))"
    and "(a, vi) \<in> set (attributes inp)"
  shows "attribute (fst (merge_mujoco_node node fileIn inp out exclude)) a = Some vo \<and>
         diagnostics_on a (snd (merge_mujoco_node node fileIn inp out exclude)) =
           (if vi \<noteq> vo then [Critical node a fileIn vi vo] else [])"
proof -
  have "filter (\<lambda>kv. fst kv = a \<and> snd kv \<noteq> vo) (attributes inp) =
          filter (\<lambda>kv. snd kv \<noteq> vo) (filter (\<lambda>kv. fst kv = a) (attributes inp))"
    by (simp add: conj_commute)
  also have "\<dots> = (if vi \<noteq> vo then [(a, vi)] else [])"
    using filter_key_distinct [OF assms(3) assms(4)] by simp
  finally show ?thesis
    using foldl_merge_attr_existing [OF assms(1) assms(2), of node fileIn "[]" "attributes inp"]
    by (simp add: merge_mujoco_node_def)
qed

theorem conflict_keeps_first_value_witness:
  "''timestep'' \<notin> set [] \<and>
   attribute (Node ''option'' [(''timestep'', ''0.002'')] []) ''timestep'' = Some ''0.002'' \<and>
   merge_mujoco_node ''option'' ''/home/u/b.xml''
     (Node ''option'' [(''gravity'', ''0 0 -9.81''), (''timestep'', ''0.005'')] [])
     (Node ''option'' [(''timestep'', ''0.002'')] []) []
   = (Node ''option'' [(''timestep'', ''0.002''), (''gravity'', ''0 0 -9.81'')] [],
      [Critical ''option'' ''timestep'' ''/home/u/b.xml'' ''0.005'' ''0.002'']) \<and>
   diagnostics_on ''timestep''
     (snd (merge_mujoco_node ''option'' ''/home/u/b.xml''
        (Node ''option'' [(''gravity'', ''0 0 -9.81''), (''timestep'', ''0.005'')] [])
        (Node ''option'' [(''timestep'', ''0.002'')] []) []))
   = [Critical ''option'' ''timestep'' ''/home/u/b.xml'' ''0.005'' ''0.002'']"
proof -
  have e: "''timestep'' \<notin> set ([] :: string list)" by simp
  have o: "attribute (Node ''option'' [(''timestep'', ''0.002'')] []) ''timestep'' = Some ''0.002''"
    by (simp add: attribute_def)
  have d: "distinct (map fst (attributes
             (Node ''option'' [(''gravity'', ''0 0 -9.81''), (''timestep'', ''0.005'')] [])))"
    by simp
  have i: "(''timestep'', ''0.005'') \<in> set (attributes
             (Node ''option'' [(''gravity'', ''0 0 -9.81''), (''timestep'', ''0.005'')] []))"
    by simp
  have r: "merge_mujoco_node ''option'' ''/home/u/b.xml''
     (Node ''option'' [(''gravity'', ''0 0 -9.81''), (''timestep'', ''0.005'')] [])
     (Node ''option'' [(''timestep'', ''0.002'')] []) []
   = (Node ''option'' [(''timestep'', ''0.002''), (''gravity'', ''0 0 -9.81'')] [],
      [Critical ''option'' ''timestep'' ''/home/u/b.xml'' ''0.005'' ''0.002''])"
    by (simp add: merge_mujoco_node_def merge_attr_def attribute_def append_attribute_def)
  from conflict_keeps_first_value [OF e o d i, of "''option''" "''/home/u/b.xml''"] o r
  show ?thesis by simp
qed

section \<open>Evaluating the model\<close>

text \<open>Unfolding these evaluates the tree operations and the POSIX instance.\<close>

lemmas node_eval =
  attribute_def child_def child_or_null_def children_named_def set_value_def
  append_attribute_def append_child_def append_copy_def get_child_or_create_def put_child_def
  null_node_def add_prefix_def add_prefixes_def

lemmas posix_eval =
  posix_lib_def posix_is_absolute_def posix_append_def posix_absolute_def posix_parent_path_def

section \<open>Every merger keeps the name of the node it edits\<close>

lemma name_merge_attr [simp]:
  "name (fst (merge_attr node fileIn exclude (out, log) kv)) = name out"
  by (cases kv) (simp add: merge_attr_def split: option.splits)

lemma name_foldl_merge_attr [simp]:
  "name (fst (foldl (merge_attr node fileIn exclude) (out, log) xs)) = name out"
proof (induction xs arbitrary: out log)
  case Nil
  then show ?case by simp
next
  case (Cons kv xs)
  obtain out1 log1 where st: "merge_attr node fileIn exclude (out, log) kv = (out1, log1)"
    by (cases "merge_attr node fileIn exclude (out, log) kv")
  from name_merge_attr [of node fileIn exclude out log kv] st have "name out1 = name out"
    by simp
  with Cons.IH [of out1 log1] st show ?case by simp
qed

lemma name_merge_mujoco_node [simp]:
  "name (fst (merge_mujoco_node node fileIn inp out exclude)) = name out"
  by (simp add: merge_mujoco_node_def)

lemma name_merge_size_attr [simp]: "name (merge_size_attr L inp out a) = name out"
  by (simp add: merge_size_attr_def split: option.splits)

lemma name_merge_mujoco_size [simp]: "name (merge_mujoco_size L inp out) = name out"
proof -
  have "name (foldl (merge_size_attr L inp) out bs) = name out" for bs
    by (induction bs arbitrary: out) simp_all
  then show ?thesis by (simp add: merge_mujoco_size_def)
qed

lemma name_merge_mujoco_compiler [simp]:
  "name (fst (merge_mujoco_compiler fileIn inp out)) = name out"
  by (simp add: merge_mujoco_compiler_def)

lemma name_merge_mujoco_option [simp]:
  "name (fst (merge_mujoco_option fileIn inp out)) = name out"
  by (simp add: merge_mujoco_option_def split_def Let_def get_child_or_create_def
        split: option.splits)

lemma name_merge_default_child [simp]:
  "name (fst (merge_default_child fileIn robot (out, log) c)) = name out"
  by (simp add: merge_default_child_def split_def Let_def get_child_or_create_def
        split: option.splits)

lemma name_merge_mujoco_default [simp]:
  "name (fst (merge_mujoco_default fileIn inp out robot)) = name out"
proof -
  have "name (fst (foldl (merge_default_child fileIn robot) st cs)) = name (fst st)" for st cs
  proof (induction cs arbitrary: st)
    case Nil
    then show ?case by simp
  next
    case (Cons c cs)
    from Cons.IH [of "merge_default_child fileIn robot st c"]
      name_merge_default_child [of fileIn robot "fst st" "snd st" c]
    show ?case by simp
  qed
  from this [of "(out, [])"] show ?thesis by (simp add: merge_mujoco_default_def)
qed

lemma name_merge_visual_child [simp]:
  "name (fst (merge_visual_child fileIn (out, log) c)) = name out"
  by (simp add: merge_visual_child_def split_def Let_def get_child_or_create_def
        split: option.splits)

lemma name_merge_mujoco_visual [simp]:
  "name (fst (merge_mujoco_visual fileIn inp out)) = name out"
proof -
  have "name (fst (foldl (merge_visual_child fileIn) st cs)) = name (fst st)" for st cs
  proof (induction cs arbitrary: st)
    case Nil
    then show ?case by simp
  next
    case (Cons c cs)
    from Cons.IH [of "merge_visual_child fileIn st c"]
      name_merge_visual_child [of fileIn "fst st" "snd st" c]
    show ?case by simp
  qed
  from this [of "(out, [])"] show ?thesis by (simp add: merge_mujoco_visual_def)
qed

lemma name_foldl_append_copy [simp]:
  "name (foldl (\<lambda>acc c. append_copy acc (g c)) out cs) = name out"
  by (induction cs arbitrary: out) simp_all

lemma name_copy_and_add_prefix [simp]:
  "name (copy_and_add_prefix inp out nm prefix attrs) = name out"
  by (simp add: copy_and_add_prefix_def)

lemma name_copy_assets [simp]: "name (copy_assets L robot inp out type dir) = name out"
  by (simp add: copy_assets_def)

lemma name_merge_mujoco_asset [simp]:
  "name (merge_mujoco_asset L inp out meshPath texturePath robot) = name out"
  by (simp add: merge_mujoco_asset_def Let_def)

lemma name_merge_mujoco_contact [simp]: "name (merge_mujoco_contact inp out robot) = name out"
  by (simp add: merge_mujoco_contact_def)

lemma name_merge_mujoco_actuator [simp]: "name (merge_mujoco_actuator inp out robot) = name out"
  by (simp add: merge_mujoco_actuator_def)

lemma name_merge_mujoco_sensor [simp]: "name (merge_mujoco_sensor inp out robot) = name out"
  by (simp add: merge_mujoco_sensor_def)

lemma name_merge_mujoco_worldbody [simp]:
  "name (merge_mujoco_worldbody inp out robot) = name out"
  by (simp add: merge_mujoco_worldbody_def)

section \<open>The section nodes of the output root\<close>

lemma find_name_Some: "find (\<lambda>c. name c = t) cs = Some c \<Longrightarrow> name c = t \<and> c \<in> set cs"
  by (induction cs) (auto split: if_splits)

lemma find_name_None: "find (\<lambda>c. name c = t) cs = None \<longleftrightarrow> t \<notin> name ` set cs"
  by (induction cs) auto

lemma map_name_replace_first:
  "name c' = nm \<Longrightarrow> map name (replace_first nm c' cs) = map name cs"
  by (induction cs) auto

lemma find_append_name:
  "find P (xs @ ys) = (case find P xs of None \<Rightarrow> find P ys | Some x \<Rightarrow> Some x)"
  by (induction xs) auto

lemma find_replace_first:
  "name c' = nm \<Longrightarrow>
     find (\<lambda>c. name c = t) (replace_first nm c' cs) =
       (if t = nm then (case find (\<lambda>c. name c = nm) cs of None \<Rightarrow> None | Some c \<Rightarrow> Some c')
        else find (\<lambda>c. name c = t) cs)"
  by (induction cs) auto

lemma name_snd_get_child_or_create [simp]: "name (snd (get_child_or_create out tag)) = tag"
  by (auto simp: get_child_or_create_def child_def split: option.splits dest: find_name_Some)

lemma fst_in_section:
  "fst (in_section out tag f) =
     put_child (fst (get_child_or_create out tag)) tag (fst (f (snd (get_child_or_create out tag))))"
  by (simp add: in_section_def split_def Let_def)

lemma snd_in_section:
  "snd (in_section out tag f) = snd (f (snd (get_child_or_create out tag)))"
  by (simp add: in_section_def split_def Let_def)

lemma name_in_section [simp]: "name (fst (in_section out tag f)) = name out"
  by (simp add: fst_in_section get_child_or_create_def split: option.splits)

lemma attributes_in_section [simp]: "attributes (fst (in_section out tag f)) = attributes out"
  by (simp add: fst_in_section get_child_or_create_def append_child_def split: option.splits)

lemma names_in_section:
  assumes "\<And>sec. name (fst (f sec)) = name sec"
  shows "map name (children (fst (in_section out tag f))) =
           (if tag \<in> set (map name (children out)) then map name (children out)
            else map name (children out) @ [tag])"
proof (cases "child out tag")
  case None
  then have n: "tag \<notin> name ` set (children out)" by (simp add: child_def find_name_None)
  have k: "name (fst (f (Node tag [] []))) = tag" using assms [of "Node tag [] []"] by simp
  from None n k show ?thesis
    by (simp add: fst_in_section get_child_or_create_def put_child_def append_child_def
          map_name_replace_first)
next
  case (Some c)
  then have c: "name c = tag" "c \<in> set (children out)"
    by (auto simp: child_def dest: find_name_Some)
  have k: "name (fst (f c)) = tag" using assms [of c] c by simp
  from Some c k show ?thesis
    by (auto simp: fst_in_section get_child_or_create_def put_child_def map_name_replace_first)
qed

lemma child_in_section:
  assumes "\<And>sec. name (fst (f sec)) = name sec"
  shows "child (fst (in_section out tag f)) t =
           (if t = tag then Some (fst (f (snd (get_child_or_create out tag)))) else child out t)"
proof (cases "child out tag")
  case None
  have k: "name (fst (f (Node tag [] []))) = tag" using assms [of "Node tag [] []"] by simp
  from None have n: "find (\<lambda>c. name c = tag) (children out) = None" by (simp add: child_def)
  from None k n show ?thesis
    by (auto simp: fst_in_section get_child_or_create_def put_child_def append_child_def
          child_def find_replace_first find_append_name split: option.splits)
next
  case (Some c)
  then have c: "name c = tag" by (auto simp: child_def dest: find_name_Some)
  have k: "name (fst (f c)) = tag" using assms [of c] c by simp
  from Some k show ?thesis
    by (simp add: fst_in_section get_child_or_create_def put_child_def child_def
          find_replace_first)
qed

lemma get_child_or_create_cong:
  "child out1 t = child out t \<Longrightarrow> snd (get_child_or_create out1 t) = snd (get_child_or_create out t)"
  by (simp add: get_child_or_create_def split: option.splits)

text \<open>Running a list of sections with distinct tags whose mergers keep names.\<close>

lemma fst_run_section:
  "fst (run_section st tf) = fst (in_section (fst st) (fst tf) (snd tf))"
  by (simp add: run_section_def split_def Let_def)

lemma snd_run_section:
  "snd (run_section st tf) = snd st @ snd (in_section (fst st) (fst tf) (snd tf))"
  by (simp add: run_section_def split_def Let_def)

lemma child_foldl_run_section:
  "distinct (map fst ms) \<Longrightarrow> list_all (\<lambda>tf. keeps_name (snd tf)) ms \<Longrightarrow>
     child (fst (foldl run_section st ms)) t =
       (case map_of ms t of
          None \<Rightarrow> child (fst st) t
        | Some f \<Rightarrow> Some (fst (f (snd (get_child_or_create (fst st) t)))))"
proof (induction ms arbitrary: st)
  case Nil
  then show ?case by simp
next
  case (Cons tf ms)
  obtain tag f where tf: "tf = (tag, f)" by (cases tf)
  let ?st1 = "run_section st tf"
  have keep: "name (fst (f sec)) = name sec" for sec
    using Cons.prems(2) tf by (simp add: keeps_name_def)
  have ch: "child (fst ?st1) u =
              (if u = tag then Some (fst (f (snd (get_child_or_create (fst st) tag))))
               else child (fst st) u)" for u
    using child_in_section [of f "fst st" tag u] keep by (simp add: fst_run_section tf)
  have d: "distinct (map fst ms)" "tag \<notin> fst ` set ms"
    using Cons.prems(1) tf by auto
  have rest: "list_all (\<lambda>tf. keeps_name (snd tf)) ms"
    using Cons.prems(2) by simp
  have ih: "child (fst (foldl run_section ?st1 ms)) t =
           (case map_of ms t of
              None \<Rightarrow> child (fst ?st1) t
            | Some g \<Rightarrow> Some (fst (g (snd (get_child_or_create (fst ?st1) t)))))"
    using Cons.IH [of ?st1] d(1) rest by simp
  show ?case
  proof (cases "t = tag")
    case True
    with d(2) have "map_of ms t = None" by (simp add: map_of_eq_None_iff)
    with ih ch [of t] True tf show ?thesis by simp
  next
    case False
    with ch [of t] have e: "child (fst ?st1) t = child (fst st) t" by simp
    from get_child_or_create_cong [OF e] ih e False tf show ?thesis
      by (simp split: option.splits)
  qed
qed

lemma names_foldl_run_section:
  "list_all (\<lambda>tf. keeps_name (snd tf)) ms \<Longrightarrow>
     map name (children (fst (foldl run_section st ms))) =
       foldl (\<lambda>ns t. if t \<in> set ns then ns else ns @ [t])
         (map name (children (fst st))) (map fst ms)"
proof (induction ms arbitrary: st)
  case Nil
  then show ?case by simp
next
  case (Cons tf ms)
  obtain tag f where tf: "tf = (tag, f)" by (cases tf)
  have keep: "name (fst (f sec)) = name sec" for sec
    using Cons.prems tf by (simp add: keeps_name_def)
  from names_in_section [of f "fst st" tag] keep
  have n: "map name (children (fst (run_section st tf))) =
           (if tag \<in> set (map name (children (fst st))) then map name (children (fst st))
            else map name (children (fst st)) @ [tag])"
    by (simp add: fst_run_section tf)
  have rest: "list_all (\<lambda>tf. keeps_name (snd tf)) ms"
    using Cons.prems by simp
  from Cons.IH [OF rest, of "run_section st tf"] n tf show ?case by simp
qed

lemma section_mergers_keep_name:
  "list_all (\<lambda>tf. keeps_name (snd tf)) (section_mergers L robot xmlFile root)"
  by (simp add: section_mergers_def keeps_name_def)

lemma tags_section_mergers:
  "map fst (section_mergers L robot xmlFile root) =
     [''compiler'', ''size'', ''option'', ''default'', ''visual'', ''asset'', ''contact'',
      ''actuator'', ''sensor'', ''worldbody'']"
  by (simp add: section_mergers_def)

section \<open>Events of one entity\<close>

lemma loaded_append [simp]: "loaded (xs @ ys) = loaded xs @ loaded ys"
  by (induction xs rule: loaded.induct) simp_all

lemma saved_append [simp]: "saved (xs @ ys) = saved xs @ saved ys"
  by (induction xs rule: saved.induct) simp_all

lemma critical_only:
  "list_all is_critical log \<Longrightarrow> loaded log = [] \<and> saved log = []"
  by (induction log rule: loaded.induct) simp_all

lemma critical_merge_attr:
  "list_all is_critical (snd st) \<Longrightarrow>
     list_all is_critical (snd (merge_attr node fileIn exclude st kv))"
  by (cases st; cases kv) (simp add: merge_attr_def split: option.splits)

lemma critical_foldl_merge_attr:
  "list_all is_critical (snd st) \<Longrightarrow>
     list_all is_critical (snd (foldl (merge_attr node fileIn exclude) st xs))"
  by (induction xs arbitrary: st) (simp_all add: critical_merge_attr)

lemma critical_merge_mujoco_node [simp]:
  "list_all is_critical (snd (merge_mujoco_node node fileIn inp out exclude))"
  by (simp add: merge_mujoco_node_def critical_foldl_merge_attr)

lemma critical_merge_mujoco_compiler [simp]:
  "list_all is_critical (snd (merge_mujoco_compiler fileIn inp out))"
  by (simp add: merge_mujoco_compiler_def)

lemma critical_merge_mujoco_option [simp]:
  "list_all is_critical (snd (merge_mujoco_option fileIn inp out))"
  by (simp add: merge_mujoco_option_def split_def Let_def split: option.splits)

lemma critical_merge_default_child:
  "list_all is_critical (snd st) \<Longrightarrow>
     list_all is_critical (snd (merge_default_child fileIn robot st c))"
  by (simp add: merge_default_child_def split_def Let_def)

lemma critical_merge_mujoco_default [simp]:
  "list_all is_critical (snd (merge_mujoco_default fileIn inp out robot))"
proof -
  have "list_all is_critical (snd st) \<Longrightarrow>
        list_all is_critical
          (snd (foldl (merge_default_child fileIn robot) st cs))" for st cs
    by (induction cs arbitrary: st) (simp_all add: critical_merge_default_child)
  from this [of "(out, [])"] show ?thesis by (simp add: merge_mujoco_default_def)
qed

lemma critical_merge_visual_child:
  "list_all is_critical (snd st) \<Longrightarrow>
     list_all is_critical (snd (merge_visual_child fileIn st c))"
  by (simp add: merge_visual_child_def split_def Let_def)

lemma critical_merge_mujoco_visual [simp]:
  "list_all is_critical (snd (merge_mujoco_visual fileIn inp out))"
proof -
  have "list_all is_critical (snd st) \<Longrightarrow>
        list_all is_critical
          (snd (foldl (merge_visual_child fileIn) st cs))" for st cs
    by (induction cs arbitrary: st) (simp_all add: critical_merge_visual_child)
  from this [of "(out, [])"] show ?thesis by (simp add: merge_mujoco_visual_def)
qed

lemma section_mergers_critical:
  "list_all (\<lambda>tf. \<forall>sec. list_all is_critical (snd (snd tf sec)))
     (section_mergers L robot xmlFile root)"
  by (simp add: section_mergers_def)

lemma critical_foldl_run_section:
  "list_all (\<lambda>tf. \<forall>sec. list_all is_critical (snd (snd tf sec))) ms \<Longrightarrow>
   list_all is_critical (snd st) \<Longrightarrow>
     list_all is_critical (snd (foldl run_section st ms))"
  by (induction ms arbitrary: st) (simp_all add: snd_run_section snd_in_section)

lemma critical_merge_sections:
  "list_all is_critical (snd (merge_sections L robot xmlFile root out))"
  by (simp add: merge_sections_def critical_foldl_run_section section_mergers_critical)

lemma foldl_add_tag_fresh:
  "distinct ts \<Longrightarrow> set ns \<inter> set ts = {} \<Longrightarrow>
     foldl (\<lambda>ns t. if t \<in> set ns then ns else ns @ [t]) ns ts = ns @ ts"
  by (induction ts arbitrary: ns) auto

lemma foldl_add_tag_known:
  "set ts \<subseteq> set ns \<Longrightarrow> foldl (\<lambda>ns t. if t \<in> set ns then ns else ns @ [t]) ns ts = ns"
  by (induction ts arbitrary: ns) auto

lemma distinct_section_tags: "distinct section_tags"
  by (simp add: section_tags_def)

lemma section_mergers_tags: "map fst (section_mergers L robot xmlFile root) = section_tags"
  by (simp add: tags_section_mergers section_tags_def)

lemma names_merge_sections:
  assumes "map name (children out) = [] \<or> map name (children out) = section_tags"
  shows "map name (children (fst (merge_sections L robot xmlFile root out))) = section_tags"
proof -
  have "map name (children (fst (merge_sections L robot xmlFile root out))) =
          foldl (\<lambda>ns t. if t \<in> set ns then ns else ns @ [t]) (map name (children out))
            section_tags"
    using names_foldl_run_section [OF section_mergers_keep_name, of "(out, [])" L robot xmlFile root]
    by (simp only: merge_sections_def section_mergers_tags fst_conv)
  with assms show ?thesis
    using foldl_add_tag_fresh [OF distinct_section_tags, of "[]"]
      foldl_add_tag_known [of section_tags section_tags]
    by auto
qed

section \<open>Loading one entity\<close>

lemma merge_mujoco_model_ok:
  "loads_ok fs f \<Longrightarrow>
     merge_mujoco_model L fs robot f out =
       (Load_file f # snd (merge_sections L robot f (root_of fs f) out),
        Inr (fst (merge_sections L robot f (root_of fs f) out)))"
  by (auto simp: merge_mujoco_model_def loads_ok_def root_of_def child_or_null_def split_def
        Let_def split: option.splits)

lemma merge_mujoco_model_bad:
  "\<not> loads_ok fs f \<Longrightarrow>
     merge_mujoco_model L fs robot f out =
       ([Load_file f, Error (load_error fs f)], Inl (Runtime_error (load_error fs f)))"
  by (auto simp: merge_mujoco_model_def loads_ok_def load_error_def error_and_throw_def
        split: option.splits)

section \<open>The loop over the entities\<close>

lemma merge_loop_done:
  "length robots \<le> i \<Longrightarrow> merge_loop L fs robots xmlFiles i out = ([], Inr out)"
  by (simp add: merge_loop.simps)

lemma merge_loop_bad:
  "i < length robots \<Longrightarrow> i < length xmlFiles \<Longrightarrow> \<not> loads_ok fs (xmlFiles ! i) \<Longrightarrow>
     merge_loop L fs robots xmlFiles i out =
       ([Load_file (xmlFiles ! i), Error (load_error fs (xmlFiles ! i))],
        Inl (Runtime_error (load_error fs (xmlFiles ! i))))"
  by (subst merge_loop.simps) (simp add: merge_mujoco_model_bad)

lemma merge_loop_ok:
  "i < length robots \<Longrightarrow> i < length xmlFiles \<Longrightarrow> loads_ok fs (xmlFiles ! i) \<Longrightarrow>
     merge_loop L fs robots xmlFiles i out =
       (Load_file (xmlFiles ! i)
          # snd (merge_sections L (robots ! i) (xmlFiles ! i) (root_of fs (xmlFiles ! i)) out)
          @ fst (merge_loop L fs robots xmlFiles (Suc i)
                  (fst (merge_sections L (robots ! i) (xmlFiles ! i)
                          (root_of fs (xmlFiles ! i)) out))),
        snd (merge_loop L fs robots xmlFiles (Suc i)
               (fst (merge_sections L (robots ! i) (xmlFiles ! i)
                       (root_of fs (xmlFiles ! i)) out))))"
  by (subst merge_loop.simps) (simp add: merge_mujoco_model_ok split_def Let_def)

lemma merge_loop_range:
  "i < length robots \<Longrightarrow> length xmlFiles \<le> i \<Longrightarrow>
     merge_loop L fs robots xmlFiles i out = ([], Inl (Index_out_of_range i))"
  by (subst merge_loop.simps) simp

lemma merge_loop_fails_at_first_bad:
  assumes "j < length robots" "j < length xmlFiles" "\<not> loads_ok fs (xmlFiles ! j)"
  shows "i \<le> j \<Longrightarrow> (\<And>k. i \<le> k \<Longrightarrow> k < j \<Longrightarrow> loads_ok fs (xmlFiles ! k)) \<Longrightarrow>
         \<exists>log. merge_loop L fs robots xmlFiles i out =
                 (log @ [Error (load_error fs (xmlFiles ! j))],
                  Inl (Runtime_error (load_error fs (xmlFiles ! j)))) \<and>
               loaded log = take (Suc j - i) (drop i xmlFiles) \<and> saved log = []"
proof (induction "j - i" arbitrary: i out)
  case 0
  then have ij: "i = j" by simp
  have "take (Suc 0) (drop j xmlFiles) = [xmlFiles ! j]"
    using assms(2) by (simp add: take_Suc_conv_app_nth)
  with merge_loop_bad [OF assms(1) assms(2) assms(3), of L out] ij show ?case
    by (intro exI [of _ "[Load_file (xmlFiles ! j)]"]) simp
next
  case (Suc d)
  then have lt: "i < j" by simp
  with assms have il: "i < length robots" "i < length xmlFiles" by simp_all
  from Suc.prems(2) [of i] lt have ok: "loads_ok fs (xmlFiles ! i)" by simp
  let ?ms = "merge_sections L (robots ! i) (xmlFiles ! i) (root_of fs (xmlFiles ! i)) out"
  from Suc.hyps(2) lt have d: "d = j - Suc i" by simp
  have le: "Suc i \<le> j" using lt by simp
  have rest: "\<And>k. Suc i \<le> k \<Longrightarrow> k < j \<Longrightarrow> loads_ok fs (xmlFiles ! k)"
    using Suc.prems(2) by simp
  from Suc.hyps(1) [OF d le rest, of "fst ?ms"]
  obtain log where l: "merge_loop L fs robots xmlFiles (Suc i) (fst ?ms) =
                 (log @ [Error (load_error fs (xmlFiles ! j))],
                  Inl (Runtime_error (load_error fs (xmlFiles ! j))))"
      "loaded log = take (Suc j - Suc i) (drop (Suc i) xmlFiles)" "saved log = []"
    by blast
  from critical_only [OF critical_merge_sections, of L "robots ! i" "xmlFiles ! i"
      "root_of fs (xmlFiles ! i)" out]
  have c: "loaded (snd ?ms) = []" "saved (snd ?ms) = []" by simp_all
  have t: "take (Suc j - i) (drop i xmlFiles) =
             xmlFiles ! i # take (Suc j - Suc i) (drop (Suc i) xmlFiles)"
  proof -
    from lt have "Suc j - i = Suc (Suc j - Suc i)" by simp
    moreover from il(2) have "drop i xmlFiles = xmlFiles ! i # drop (Suc i) xmlFiles"
      by (simp add: Cons_nth_drop_Suc)
    ultimately show ?thesis by simp
  qed
  show ?case
    by (intro exI [of _ "Load_file (xmlFiles ! i) # snd ?ms @ log"])
       (simp add: merge_loop_ok [OF il ok] l c t)
qed

lemma merge_loop_names:
  assumes "merge_loop L fs robots xmlFiles i out = (log, Inr out')"
    and "map name (children out) = [] \<or> map name (children out) = section_tags"
  shows "map name (children out') =
           (if i < length robots then section_tags else map name (children out))"
  using assms
proof (induction "length robots - i" arbitrary: i out log)
  case 0
  then have "length robots \<le> i" by simp
  with "0.prems"(1) show ?case by (simp add: merge_loop_done)
next
  case (Suc d)
  then have il: "i < length robots" by simp
  show ?case
  proof (cases "i < length xmlFiles")
    case False
    with il Suc.prems(1) show ?thesis by (simp add: merge_loop_range)
  next
    case True
    show ?thesis
    proof (cases "loads_ok fs (xmlFiles ! i)")
      case False
      with il True Suc.prems(1) show ?thesis by (simp add: merge_loop_bad)
    next
      case ok: True
      let ?ms = "merge_sections L (robots ! i) (xmlFiles ! i) (root_of fs (xmlFiles ! i)) out"
      have n: "map name (children (fst ?ms)) = section_tags"
        by (rule names_merge_sections [OF Suc.prems(2)])
      obtain log1 where r: "merge_loop L fs robots xmlFiles (Suc i) (fst ?ms) = (log1, Inr out')"
        using Suc.prems(1) merge_loop_ok [OF il True ok, of L out]
        by (cases "merge_loop L fs robots xmlFiles (Suc i) (fst ?ms)") simp
      from Suc.hyps(2) have d: "d = length robots - Suc i" by simp
      from Suc.hyps(1) [OF d r] n il show ?thesis by simp
    qed
  qed
qed

lemma merge_loop_saved: "saved (fst (merge_loop L fs robots xmlFiles i out)) = []"
proof (induction "length robots - i" arbitrary: i out)
  case 0
  then show ?case by (simp add: merge_loop_done)
next
  case (Suc d)
  then have il: "i < length robots" by simp
  show ?case
  proof (cases "i < length xmlFiles")
    case False
    with il show ?thesis by (simp add: merge_loop_range)
  next
    case True
    show ?thesis
    proof (cases "loads_ok fs (xmlFiles ! i)")
      case False
      with il True show ?thesis by (simp add: merge_loop_bad)
    next
      case ok: True
      let ?ms = "merge_sections L (robots ! i) (xmlFiles ! i) (root_of fs (xmlFiles ! i)) out"
      from Suc.hyps(2) have d: "d = length robots - Suc i" by simp
      from critical_only [OF critical_merge_sections, of L "robots ! i" "xmlFiles ! i"
          "root_of fs (xmlFiles ! i)" out]
      have "saved (snd ?ms) = []" by simp
      with Suc.hyps(1) [OF d, of "fst ?ms"] show ?thesis
        by (simp add: merge_loop_ok [OF il True ok])
    qed
  qed
qed

text \<open>Unfolding these runs the orchestrator on the example documents.\<close>

lemmas merge_eval =
  merge_loop.simps merge_mujoco_model_def merge_sections_def
  section_mergers_def run_section_def in_section_def error_and_throw_def new_root_def
  merge_mujoco_compiler_def merge_mujoco_node_def merge_attr_def merge_mujoco_size_def
  merge_size_attr_def size_attributes_def merge_mujoco_option_def merge_mujoco_default_def
  merge_default_child_def merge_mujoco_visual_def merge_visual_child_def
  merge_mujoco_asset_def copy_assets_def update_name_def update_file_def prefix_bones_def
  merge_mujoco_contact_def copy_and_add_prefix_def merge_mujoco_actuator_def
  merge_mujoco_sensor_def merge_mujoco_worldbody_def worldbody_attrs_def default_attrs_def
  get_mujoco_path_def example_files_def doc_a_def doc_b_def doc_c_def merged_ab_def merged_ba_def

lemma example_loop_ab:
  "merge_loop (posix_lib ''/work'') example_files [''r1'', ''r2''] [''/m/a.xml'', ''/m/b.xml'']
     0 new_root =
   ([Load_file ''/m/a.xml'', Load_file ''/m/b.xml'',
     Critical ''compiler'' ''angle'' ''/m/b.xml'' ''degree'' ''radian''],
    Inr merged_ab)"
  by (simp add: merge_eval node_eval posix_eval dec_eval)

lemma example_loop_ba:
  "merge_loop (posix_lib ''/work'') example_files [''r2'', ''r1''] [''/m/b.xml'', ''/m/a.xml'']
     0 new_root =
   ([Load_file ''/m/b.xml'', Load_file ''/m/a.xml'',
     Critical ''compiler'' ''angle'' ''/m/a.xml'' ''radian'' ''degree''],
    Inr merged_ba)"
  by (simp add: merge_eval node_eval posix_eval dec_eval)

lemma example_merge_acb:
  "merge_mujoco_models (posix_lib ''/work'') example_files [''r1'', ''r3'', ''r2'']
     [''/m/a.xml'', ''/m/c.xml'', ''/m/b.xml''] =
   ([Load_file ''/m/a.xml'', Load_file ''/m/c.xml'', Error ''No mujoco root node in /m/c.xml''],
    Inl (Runtime_error ''No mujoco root node in /m/c.xml''))"
  by (simp add: merge_mujoco_models_def merge_eval node_eval posix_eval dec_eval)

section \<open>A file that does not load aborts the merge\<close>

text \<open>
  C7. Let the two lists have the same length, other than one, and let some listed file
  not load: \<^verbatim>\<open>load_file\<close> fails on it, or its document has no \<^verbatim>\<open>mujoco\<close> root. Then
  \<^verbatim>\<open>merge_mujoco_models\<close> ends with the exception of the first such file, at index \<open>j\<close>:
  the last event is the error report with the exception's message, the files loaded
  are exactly the first \<open>j + 1\<close> of the list, in order and once each (no later entity is
  touched and no file is tried again), and no document is saved.
\<close>

theorem unloadable_file_aborts_merge:
  assumes "length robots = length xmlFiles"
    and "length xmlFiles \<noteq> 1"
    and "i < length xmlFiles"
    and "\<not> loads_ok fs (xmlFiles ! i)"
  shows "\<exists>j log. j \<le> i \<and> \<not> loads_ok fs (xmlFiles ! j) \<and>
           merge_mujoco_models L fs robots xmlFiles =
             (log, Inl (Runtime_error (load_error fs (xmlFiles ! j)))) \<and>
           last log = Error (load_error fs (xmlFiles ! j)) \<and>
           loaded log = take (Suc j) xmlFiles \<and> saved log = []"
proof -
  define j where "j = (LEAST k. \<not> loads_ok fs (xmlFiles ! k))"
  have bad: "\<not> loads_ok fs (xmlFiles ! j)"
    unfolding j_def using assms(4) by (rule LeastI)
  have le: "j \<le> i"
    unfolding j_def using assms(4) by (rule Least_le)
  have good: "\<And>k. 0 \<le> k \<Longrightarrow> k < j \<Longrightarrow> loads_ok fs (xmlFiles ! k)"
    unfolding j_def using not_less_Least by blast
  from le assms(1) assms(3) have jl: "j < length robots" "j < length xmlFiles" by simp_all
  from merge_loop_fails_at_first_bad [OF jl bad, of 0 L new_root] good
  obtain log where l: "merge_loop L fs robots xmlFiles 0 new_root =
                 (log @ [Error (load_error fs (xmlFiles ! j))],
                  Inl (Runtime_error (load_error fs (xmlFiles ! j))))"
      "loaded log = take (Suc j) xmlFiles" "saved log = []"
    by auto
  from assms(2) l have
    "merge_mujoco_models L fs robots xmlFiles =
       (log @ [Error (load_error fs (xmlFiles ! j))],
        Inl (Runtime_error (load_error fs (xmlFiles ! j))))"
    by (simp add: merge_mujoco_models_def)
  with le bad l(2) l(3) show ?thesis
    by (intro exI [of _ j] exI [of _ "log @ [Error (load_error fs (xmlFiles ! j))]"]) simp
qed

theorem unloadable_file_aborts_merge_witness:
  "length [''r1'', ''r3'', ''r2''] = length [''/m/a.xml'', ''/m/c.xml'', ''/m/b.xml''] \<and>
   length [''/m/a.xml'', ''/m/c.xml'', ''/m/b.xml''] \<noteq> 1 \<and>
   (1::nat) < length [''/m/a.xml'', ''/m/c.xml'', ''/m/b.xml''] \<and>
   \<not> loads_ok example_files ([''/m/a.xml'', ''/m/c.xml'', ''/m/b.xml''] ! 1) \<and>
   (\<exists>j log. j \<le> 1 \<and> \<not> loads_ok example_files ([''/m/a.xml'', ''/m/c.xml'', ''/m/b.xml''] ! j) \<and>
      merge_mujoco_models (posix_lib ''/work'') example_files [''r1'', ''r3'', ''r2'']
        [''/m/a.xml'', ''/m/c.xml'', ''/m/b.xml''] =
        (log, Inl (Runtime_error
                (load_error example_files ([''/m/a.xml'', ''/m/c.xml'', ''/m/b.xml''] ! j)))) \<and>
      last log = Error (load_error example_files ([''/m/a.xml'', ''/m/c.xml'', ''/m/b.xml''] ! j)) \<and>
      loaded log = take (Suc j) [''/m/a.xml'', ''/m/c.xml'', ''/m/b.xml''] \<and> saved log = []) \<and>
   merge_mujoco_models (posix_lib ''/work'') example_files [''r1'', ''r3'', ''r2'']
     [''/m/a.xml'', ''/m/c.xml'', ''/m/b.xml''] =
   ([Load_file ''/m/a.xml'', Load_file ''/m/c.xml'', Error ''No mujoco root node in /m/c.xml''],
    Inl (Runtime_error ''No mujoco root node in /m/c.xml''))"
proof -
  have h1: "length [''r1'', ''r3'', ''r2''] = length [''/m/a.xml'', ''/m/c.xml'', ''/m/b.xml'']"
    by simp
  have h2: "length [''/m/a.xml'', ''/m/c.xml'', ''/m/b.xml''] \<noteq> 1" by simp
  have h3: "(1::nat) < length [''/m/a.xml'', ''/m/c.xml'', ''/m/b.xml'']" by simp
  have h4: "\<not> loads_ok example_files ([''/m/a.xml'', ''/m/c.xml'', ''/m/b.xml''] ! 1)"
    by (simp add: loads_ok_def example_files_def doc_c_def child_def)
  from unloadable_file_aborts_merge [OF h1 h2 h3 h4, of "posix_lib ''/work''"]
    h1 h2 h3 h4 example_merge_acb
  show ?thesis by (intro conjI) assumption+
qed

section \<open>One node per section\<close>

lemma merge_mujoco_models_saves:
  assumes "merge_mujoco_models L fs robots xmlFiles = (log, Inr p)"
    and "length xmlFiles \<noteq> 1"
  shows "\<exists>log0 out. merge_loop L fs robots xmlFiles 0 new_root = (log0, Inr out) \<and>
           log = log0 @ [Save outFile (Node [] [] [out])] \<and> p = outFile \<and>
           saved log = [(outFile, Node [] [] [out])]"
proof (cases "merge_loop L fs robots xmlFiles 0 new_root")
  case (Pair log0 r)
  show ?thesis
  proof (cases r)
    case (Inl e)
    with Pair assms show ?thesis by (simp add: merge_mujoco_models_def)
  next
    case (Inr out)
    from merge_loop_saved [of L fs robots xmlFiles 0 new_root] Pair
    have "saved log0 = []" by simp
    with Inr Pair assms show ?thesis by (auto simp: merge_mujoco_models_def)
  qed
qed

lemma names_new_root: "map name (children new_root) = []"
  by (simp add: new_root_def)

text \<open>
  C8. The names of the children of the output root, in order, after the loop has run
  over the first \<open>k\<close> entities without a failure: none before the first entity, and exactly
  the ten section tags, each once, after every later one; a section node is created by
  the first entity and found again by \<^verbatim>\<open>get_child_or_create\<close> afterwards. The same holds
  for the root of the document \<^verbatim>\<open>merge_mujoco_models\<close> saves, the only one it saves.
\<close>

theorem one_node_per_section:
  "(merge_loop L fs (take k robots) xmlFiles 0 new_root = (log, Inr out) \<longrightarrow>
      map name (children out) = (if k = 0 \<or> robots = [] then [] else section_tags)) \<and>
   (merge_mujoco_models L fs robots xmlFiles = (log', Inr p) \<and> length xmlFiles \<noteq> 1 \<longrightarrow>
      (\<exists>out'. saved log' = [(p, Node [] [] [out'])] \<and>
         map name (children out') = (if robots = [] then [] else section_tags)))"
proof (intro conjI impI)
  assume "merge_loop L fs (take k robots) xmlFiles 0 new_root = (log, Inr out)"
  from merge_loop_names [OF this] names_new_root
  show "map name (children out) = (if k = 0 \<or> robots = [] then [] else section_tags)"
    by auto
next
  assume a: "merge_mujoco_models L fs robots xmlFiles = (log', Inr p) \<and> length xmlFiles \<noteq> 1"
  then obtain log0 out' where l: "merge_loop L fs robots xmlFiles 0 new_root = (log0, Inr out')"
      "p = outFile" "saved log' = [(outFile, Node [] [] [out'])]"
    using merge_mujoco_models_saves [of L fs robots xmlFiles log' p] by auto
  from merge_loop_names [OF l(1)] names_new_root
  have "map name (children out') = (if robots = [] then [] else section_tags)" by auto
  with l show "\<exists>out'. saved log' = [(p, Node [] [] [out'])] \<and>
         map name (children out') = (if robots = [] then [] else section_tags)"
    by auto
qed

lemma example_merge_ab:
  "merge_mujoco_models (posix_lib ''/work'') example_files [''r1'', ''r2'']
     [''/m/a.xml'', ''/m/b.xml''] =
   ([Load_file ''/m/a.xml'', Load_file ''/m/b.xml'',
     Critical ''compiler'' ''angle'' ''/m/b.xml'' ''degree'' ''radian'',
     Save ''/tmp/mc_mujoco.xml''
       (Node [] [] [merged_ab])],
    Inr ''/tmp/mc_mujoco.xml'')"
  by (simp add: merge_mujoco_models_def example_loop_ab outFile_def)

lemma example_merge_ba:
  "merge_mujoco_models (posix_lib ''/work'') example_files [''r2'', ''r1'']
     [''/m/b.xml'', ''/m/a.xml''] =
   ([Load_file ''/m/b.xml'', Load_file ''/m/a.xml'',
     Critical ''compiler'' ''angle'' ''/m/a.xml'' ''radian'' ''degree'',
     Save ''/tmp/mc_mujoco.xml''
       (Node [] [] [merged_ba])],
    Inr ''/tmp/mc_mujoco.xml'')"
  by (simp add: merge_mujoco_models_def example_loop_ba outFile_def)

theorem one_node_per_section_witness:
  "merge_loop (posix_lib ''/work'') example_files (take 2 [''r1'', ''r2''])
     [''/m/a.xml'', ''/m/b.xml''] 0 new_root =
   ([Load_file ''/m/a.xml'', Load_file ''/m/b.xml'',
     Critical ''compiler'' ''angle'' ''/m/b.xml'' ''degree'' ''radian''],
    Inr merged_ab) \<and>
   map name (children merged_ab) = section_tags \<and>
   snd (merge_mujoco_models (posix_lib ''/work'') example_files [''r1'', ''r2'']
     [''/m/a.xml'', ''/m/b.xml'']) = Inr ''/tmp/mc_mujoco.xml'' \<and>
   length [''/m/a.xml'', ''/m/b.xml''] \<noteq> 1 \<and>
   (\<exists>out'. saved (fst (merge_mujoco_models (posix_lib ''/work'') example_files [''r1'', ''r2'']
                 [''/m/a.xml'', ''/m/b.xml''])) = [(''/tmp/mc_mujoco.xml'', Node [] [] [out'])] \<and>
      map name (children out') = section_tags)"
proof -
  let ?L = "posix_lib ''/work''"
  let ?log = "[Load_file ''/m/a.xml'', Load_file ''/m/b.xml'',
     Critical ''compiler'' ''angle'' ''/m/b.xml'' ''degree'' ''radian'']"
  have h1: "merge_loop ?L example_files (take 2 [''r1'', ''r2'']) [''/m/a.xml'', ''/m/b.xml'']
              0 new_root = (?log, Inr merged_ab)"
    using example_loop_ab by simp
  have h2: "merge_mujoco_models ?L example_files [''r1'', ''r2''] [''/m/a.xml'', ''/m/b.xml'']
              = (?log @ [Save ''/tmp/mc_mujoco.xml'' (Node [] [] [merged_ab])], Inr ''/tmp/mc_mujoco.xml'')
            \<and> length [''/m/a.xml'', ''/m/b.xml''] \<noteq> 1"
    using example_merge_ab by simp
  from one_node_per_section [of ?L example_files 2 "[''r1'', ''r2'']"
      "[''/m/a.xml'', ''/m/b.xml'']" ?log merged_ab
      "?log @ [Save ''/tmp/mc_mujoco.xml'' (Node [] [] [merged_ab])]" "''/tmp/mc_mujoco.xml''"] h1 h2
  show ?thesis by simp
qed

section \<open>The decimal instance reads back what it writes\<close>

lemma of_char_digit_char: "d < 10 \<Longrightarrow> of_char (digit_char d) = 48 + d"
proof -
  assume "d < 10"
  then have "d \<in> {0, 1, 2, 3, 4, 5, 6, 7, 8, 9}" by auto
  then show ?thesis by (auto simp: digit_char_def)
qed

lemma is_digit_digit_char: "d < 10 \<Longrightarrow> is_digit (digit_char d)"
  by (simp add: is_digit_def of_char_digit_char)

lemma digit_val_digit_char: "d < 10 \<Longrightarrow> digit_val (digit_char d) = d"
  by (simp add: digit_val_def of_char_digit_char)

lemma digits_dec_of_nat: "list_all is_digit (dec_of_nat n) \<and> dec_of_nat n \<noteq> []"
proof (induction n rule: dec_of_nat.induct)
  case (1 n)
  show ?case
  proof (cases "n < 10")
    case True
    then show ?thesis by (subst (1 2) dec_of_nat.simps) (simp add: is_digit_digit_char)
  next
    case False
    with 1 show ?thesis
      by (subst (1 2) dec_of_nat.simps) (simp add: is_digit_digit_char)
  qed
qed

lemma foldl_dec_of_nat:
  "foldl (\<lambda>a c. a * 10 + digit_val c) 0 (dec_of_nat n) = n"
proof (induction n rule: dec_of_nat.induct)
  case (1 n)
  show ?case
  proof (cases "n < 10")
    case True
    then show ?thesis by (subst dec_of_nat.simps) (simp add: digit_val_digit_char)
  next
    case False
    with 1 show ?thesis
      by (subst dec_of_nat.simps) (simp add: digit_val_digit_char)
  qed
qed

lemma dec_value_dec_of_nat: "dec_value (dec_of_nat n) = n"
proof -
  have "takeWhile is_digit (dec_of_nat n) = dec_of_nat n"
    using digits_dec_of_nat [of n] by (simp add: list_all_iff)
  then show ?thesis by (simp only: dec_value_def foldl_dec_of_nat)
qed

lemma is_digit_plain: "is_digit c \<Longrightarrow> \<not> is_space c \<and> c \<noteq> CHR ''-'' \<and> c \<noteq> CHR ''+''"
  by (auto simp: is_digit_def is_space_def)

lemma hd_dec_of_nat: "is_digit (hd (dec_of_nat n))"
  using digits_dec_of_nat [of n] by (cases "dec_of_nat n") simp_all

lemma dec_as_int_dec_of_nat:
  "dec_as_int (dec_of_nat n) = (if 2147483647 < n then word_of_int 2147483647 else word_of_int (int n))"
proof -
  obtain c cs where s: "dec_of_nat n = c # cs"
    using digits_dec_of_nat [of n] by (cases "dec_of_nat n") simp_all
  with hd_dec_of_nat [of n] have "is_digit c" by simp
  from is_digit_plain [OF this] s dec_value_dec_of_nat [of n] show ?thesis
    by (simp add: dec_as_int_def Let_def)
qed

lemma dec_as_int_minus_dec_of_nat:
  "dec_as_int (CHR ''-'' # dec_of_nat n) =
     (if 2147483648 < n then word_of_int (- 2147483648) else word_of_int (- int n))"
  using dec_value_dec_of_nat [of n] by (simp add: dec_as_int_def Let_def is_space_def)

lemma dec_round_trip: "dec_as_int (dec_of_int w) = w"
proof (cases "sint w < 0")
  case True
  have "- (2 ^ (LENGTH(32) - 1)) \<le> sint w" by (rule sint_ge)
  then have "nat (- sint w) \<le> 2147483648" by simp
  with True show ?thesis
    by (simp add: dec_of_int_def dec_as_int_minus_dec_of_nat)
next
  case False
  have "sint w < 2 ^ (LENGTH(32) - 1)" by (rule sint_lt)
  then have "nat (sint w) \<le> 2147483647" by simp
  with False show ?thesis
    by (simp add: dec_of_int_def dec_as_int_dec_of_nat)
qed

lemma posix_lib_round_trip:
  "as_int (posix_lib cwd) (int_to_string (posix_lib cwd) w) = w"
  by (simp add: posix_lib_def dec_round_trip)

section \<open>Accumulation does not depend on the order\<close>

lemma accumulate_None [simp]: "accumulate L s None = s"
  by (simp add: accumulate_def)

lemma foldl_accumulate_Some:
  assumes "\<And>w. as_int L (int_to_string L w) = w"
  shows "foldl (accumulate L) (Some v0) (map Some vs) =
           (if vs = [] then Some v0
            else Some (int_to_string L (as_int L v0 + sum_list (map (as_int L) vs))))"
proof (induction vs arbitrary: v0)
  case Nil
  then show ?case by simp
next
  case (Cons v vs)
  show ?case
    using Cons.IH [of "int_to_string L (as_int L v0 + as_int L v)"] assms
    by (simp add: accumulate_def add.assoc)
qed

lemma foldl_accumulate_skip:
  "foldl (accumulate L) s vs = foldl (accumulate L) s (map Some (map the (filter (\<lambda>v. v \<noteq> None) vs)))"
  by (induction vs arbitrary: s) auto

lemma foldl_accumulate_closed:
  assumes "\<And>w. as_int L (int_to_string L w) = w"
  shows "foldl (accumulate L) None (map Some vs) =
           (case vs of
              [] \<Rightarrow> None
            | v # rest \<Rightarrow>
                if rest = [] then Some v
                else Some (int_to_string L (sum_list (map (as_int L) vs))))"
proof (cases vs)
  case Nil
  then show ?thesis by simp
next
  case (Cons v rest)
  have "foldl (accumulate L) None (map Some (v # rest)) =
          foldl (accumulate L) (Some v) (map Some rest)"
    by (simp add: accumulate_def)
  with foldl_accumulate_Some [OF assms, of v rest] Cons show ?thesis by simp
qed

lemma foldl_accumulate_perm_Some:
  assumes rt: "\<And>w. as_int L (int_to_string L w) = w"
    and p: "mset vs = mset vs'"
  shows "foldl (accumulate L) None (map Some vs) = foldl (accumulate L) None (map Some vs')"
proof -
  from p have len: "length vs = length vs'" by (rule mset_eq_length)
  from p have "mset (map (as_int L) vs) = mset (map (as_int L) vs')" by simp
  then have sum: "sum_list (map (as_int L) vs) = sum_list (map (as_int L) vs')"
    by (metis sum_mset_sum_list)
  show ?thesis
  proof (cases vs)
    case Nil
    with len show ?thesis by simp
  next
    case (Cons v rest)
    then obtain v' rest' where c': "vs' = v' # rest'" using len by (cases vs') simp_all
    show ?thesis
    proof (cases "rest = []")
      case True
      with Cons c' len have "rest' = []" by simp
      with True Cons c' p show ?thesis by simp
    next
      case False
      with Cons c' len have "rest' \<noteq> []" by auto
      with False Cons c' sum show ?thesis
        by (simp only: foldl_accumulate_closed [OF rt] list.case if_False)
    qed
  qed
qed

lemma foldl_accumulate_perm:
  assumes rt: "\<And>w. as_int L (int_to_string L w) = w"
    and p: "mset vs = mset vs'"
  shows "foldl (accumulate L) None vs = foldl (accumulate L) None vs'"
proof -
  from p have "filter_mset (\<lambda>v. v \<noteq> None) (mset vs) = filter_mset (\<lambda>v. v \<noteq> None) (mset vs')"
    by simp
  then have "mset (filter (\<lambda>v. v \<noteq> None) vs) = mset (filter (\<lambda>v. v \<noteq> None) vs')"
    by (simp only: mset_filter)
  then have "mset (map the (filter (\<lambda>v. v \<noteq> None) vs)) =
                 mset (map the (filter (\<lambda>v. v \<noteq> None) vs'))"
    by (simp only: mset_map)
  from foldl_accumulate_perm_Some [OF rt this]
  show ?thesis
    using foldl_accumulate_skip [of L None vs] foldl_accumulate_skip [of L None vs'] by simp
qed

section \<open>The first declared value\<close>

lemma foldl_first_value:
  "foldl (\<lambda>s v. case s of Some x \<Rightarrow> Some x | None \<Rightarrow> v) s (map (\<lambda>n. attribute n a) ns) =
     (case s of Some x \<Rightarrow> Some x | None \<Rightarrow> first_value a ns)"
  by (induction ns arbitrary: s) (auto split: option.splits)

lemma foldl_merge_attr_first:
  "a \<notin> set exclude \<Longrightarrow>
     attribute (fst (foldl (merge_attr node fileIn exclude) (out, log) xs)) a =
       (case attribute out a of Some v \<Rightarrow> Some v | None \<Rightarrow> map_of xs a)"
proof (induction xs arbitrary: out log)
  case Nil
  then show ?case by (simp split: option.splits)
next
  case (Cons kv xs)
  obtain k v where kv: "kv = (k, v)" by (cases kv)
  obtain out1 log1 where st: "merge_attr node fileIn exclude (out, log) (k, v) = (out1, log1)"
    by (cases "merge_attr node fileIn exclude (out, log) (k, v)")
  have a1: "attribute out1 a =
              (case attribute out a of Some x \<Rightarrow> Some x
               | None \<Rightarrow> if a = k then Some v else None)"
    using st Cons.prems
    by (auto simp: merge_attr_def attribute_append_attribute split: option.splits if_splits)
  from Cons.IH [OF Cons.prems, of out1 log1] st kv a1 show ?case
    by (simp split: option.splits)
qed

lemma merge_mujoco_node_first:
  "a \<notin> set exclude \<Longrightarrow>
     attribute (fst (merge_mujoco_node node fileIn inp out exclude)) a =
       (case attribute out a of Some v \<Rightarrow> Some v | None \<Rightarrow> attribute inp a)"
proof -
  assume "a \<notin> set exclude"
  from foldl_merge_attr_first [OF this, of node fileIn out "[]" "attributes inp"]
  have "attribute (fst (merge_mujoco_node node fileIn inp out exclude)) a =
          (case attribute out a of Some v \<Rightarrow> Some v | None \<Rightarrow> map_of (attributes inp) a)"
    by (simp only: merge_mujoco_node_def)
  then show ?thesis by (simp only: attribute_def [of inp a])
qed

lemma attribute_put_child [simp]: "attribute (put_child n nm c) a = attribute n a"
  by (simp add: attribute_def)

lemma attribute_fst_get_child_or_create [simp]:
  "attribute (fst (get_child_or_create n nm)) a = attribute n a"
  by (simp add: get_child_or_create_def attribute_def append_child_def split: option.splits)

lemma merge_mujoco_option_first:
  "attribute (fst (merge_mujoco_option fileIn inp out)) a =
     (case attribute out a of Some v \<Rightarrow> Some v | None \<Rightarrow> attribute inp a)"
  using merge_mujoco_node_first [of a "[]" "''option''" fileIn inp out]
  by (simp add: merge_mujoco_option_def split_def Let_def split: option.splits)

lemma merge_mujoco_compiler_first:
  "a \<notin> {''meshdir'', ''texturedir''} \<Longrightarrow>
     attribute (fst (merge_mujoco_compiler fileIn inp out)) a =
       (case attribute out a of Some v \<Rightarrow> Some v | None \<Rightarrow> attribute inp a)"
  using merge_mujoco_node_first [of a "[''meshdir'', ''texturedir'']" "''compiler''" fileIn inp out]
  by (simp add: merge_mujoco_compiler_def)

section \<open>What one entity adds to the size and compiler sections\<close>

lemma distinct_section_mergers: "distinct (map fst (section_mergers L robot xmlFile root))"
  by (simp only: section_mergers_tags distinct_section_tags)

lemma child_merge_sections:
  "child (fst (merge_sections L robot xmlFile root out)) t =
     (case map_of (section_mergers L robot xmlFile root) t of
        None \<Rightarrow> child out t
      | Some f \<Rightarrow> Some (fst (f (snd (get_child_or_create out t)))))"
  using child_foldl_run_section [OF distinct_section_mergers section_mergers_keep_name,
      of "(out, [])" L robot xmlFile root t]
  by (simp only: merge_sections_def fst_conv)

lemma attribute_snd_get_child_or_create:
  "attribute (snd (get_child_or_create out t)) a = attribute (child_or_null out t) a"
  by (simp add: get_child_or_create_def child_or_null_def null_node_def attribute_def
        split: option.splits)

lemma size_section_step:
  assumes "a \<in> set size_attributes"
  shows "attribute (child_or_null (fst (merge_sections L robot xmlFile root out)) ''size'') a =
           accumulate L (attribute (child_or_null out ''size'') a)
             (attribute (child_or_null root ''size'') a)"
proof -
  have m: "map_of (section_mergers L robot xmlFile root) ''size'' =
             Some (\<lambda>sec. (merge_mujoco_size L (child_or_null root ''size'') sec, []))"
    by (simp add: section_mergers_def)
  have "child_or_null (fst (merge_sections L robot xmlFile root out)) ''size'' =
          merge_mujoco_size L (child_or_null root ''size'') (snd (get_child_or_create out ''size''))"
    by (simp add: child_or_null_def child_merge_sections m)
  then show ?thesis
    by (simp add: attribute_merge_mujoco_size [OF assms] attribute_merge_size_attr_same
          attribute_snd_get_child_or_create accumulate_def split: option.splits)
qed

lemma compiler_section_step:
  assumes "a \<notin> {''meshdir'', ''texturedir''}"
  shows "attribute (child_or_null (fst (merge_sections L robot xmlFile root out)) ''compiler'') a =
           (case attribute (child_or_null out ''compiler'') a of
              Some x \<Rightarrow> Some x
            | None \<Rightarrow> attribute (child_or_null root ''compiler'') a)"
proof -
  have m: "map_of (section_mergers L robot xmlFile root) ''compiler'' =
             Some (merge_mujoco_compiler xmlFile (child_or_null root ''compiler''))"
    by (simp add: section_mergers_def)
  have "child_or_null (fst (merge_sections L robot xmlFile root out)) ''compiler'' =
          fst (merge_mujoco_compiler xmlFile (child_or_null root ''compiler'')
                 (snd (get_child_or_create out ''compiler'')))"
    by (simp add: child_or_null_def child_merge_sections m)
  then show ?thesis
    by (simp add: merge_mujoco_compiler_first [OF assms] attribute_snd_get_child_or_create)
qed

lemma option_section_step:
  "attribute (child_or_null (fst (merge_sections L robot xmlFile root out)) ''option'') a =
     (case attribute (child_or_null out ''option'') a of
        Some x \<Rightarrow> Some x
      | None \<Rightarrow> attribute (child_or_null root ''option'') a)"
proof -
  have m: "map_of (section_mergers L robot xmlFile root) ''option'' =
             Some (merge_mujoco_option xmlFile (child_or_null root ''option''))"
    by (simp add: section_mergers_def)
  have "child_or_null (fst (merge_sections L robot xmlFile root out)) ''option'' =
          fst (merge_mujoco_option xmlFile (child_or_null root ''option'')
                 (snd (get_child_or_create out ''option'')))"
    by (simp add: child_or_null_def child_merge_sections m)
  then show ?thesis
    by (simp add: merge_mujoco_option_first attribute_snd_get_child_or_create)
qed

text \<open>
  A reading \<open>g\<close> of the output root that every entity updates by \<open>stp\<close> from a reading \<open>h\<close>
  of its own root is, after the loop, the fold of \<open>stp\<close> over the entities in list order.
\<close>

lemma merge_loop_project:
  assumes step: "\<And>robot f root out. g (fst (merge_sections L robot f root out)) = stp (g out) (h root)"
    and len: "length robots = length xmlFiles"
  shows "merge_loop L fs robots xmlFiles i out = (log, Inr out') \<Longrightarrow>
         g out' = foldl stp (g out) (map (\<lambda>f. h (root_of fs f)) (drop i xmlFiles))"
proof (induction "length robots - i" arbitrary: i out log)
  case 0
  then have "length robots \<le> i" by simp
  with "0.prems" len show ?case by (simp add: merge_loop_done)
next
  case (Suc d)
  then have il: "i < length robots" by simp
  with len have ix: "i < length xmlFiles" by simp
  show ?case
  proof (cases "loads_ok fs (xmlFiles ! i)")
    case False
    with il ix Suc.prems show ?thesis by (simp add: merge_loop_bad)
  next
    case ok: True
    let ?ms = "merge_sections L (robots ! i) (xmlFiles ! i) (root_of fs (xmlFiles ! i)) out"
    obtain log1 where r: "merge_loop L fs robots xmlFiles (Suc i) (fst ?ms) = (log1, Inr out')"
      using Suc.prems merge_loop_ok [OF il ix ok, of L out]
      by (cases "merge_loop L fs robots xmlFiles (Suc i) (fst ?ms)") simp
    from Suc.hyps(2) have d: "d = length robots - Suc i" by simp
    from ix have dr: "drop i xmlFiles = xmlFiles ! i # drop (Suc i) xmlFiles"
      by (simp add: Cons_nth_drop_Suc)
    from Suc.hyps(1) [OF d r] step [of "robots ! i" "xmlFiles ! i" "root_of fs (xmlFiles ! i)" out]
    show ?thesis by (simp add: dr)
  qed
qed

lemma new_root_sections [simp]: "attribute (child_or_null new_root t) a = None"
  by (simp add: new_root_def child_or_null_def child_def null_node_def attribute_def
        append_attribute_def)

lemma merge_loop_size:
  assumes "a \<in> set size_attributes" "length robots = length xmlFiles"
    and "merge_loop L fs robots xmlFiles 0 new_root = (log, Inr out)"
  shows "attribute (child_or_null out ''size'') a =
           foldl (accumulate L) None
             (map (\<lambda>f. attribute (child_or_null (root_of fs f) ''size'') a) xmlFiles)"
  using merge_loop_project [of "\<lambda>n. attribute (child_or_null n ''size'') a" L "accumulate L"
      "\<lambda>n. attribute (child_or_null n ''size'') a" robots xmlFiles fs 0 new_root log out,
      OF size_section_step [OF assms(1)] assms(2) assms(3)]
  by simp

lemma merge_loop_compiler:
  assumes "a \<notin> {''meshdir'', ''texturedir''}" "length robots = length xmlFiles"
    and "merge_loop L fs robots xmlFiles 0 new_root = (log, Inr out)"
  shows "attribute (child_or_null out ''compiler'') a =
           first_value a (map (\<lambda>f. child_or_null (root_of fs f) ''compiler'') xmlFiles)"
  using merge_loop_project [of "\<lambda>n. attribute (child_or_null n ''compiler'') a" L
      "\<lambda>s v. case s of Some x \<Rightarrow> Some x | None \<Rightarrow> v"
      "\<lambda>n. attribute (child_or_null n ''compiler'') a" robots xmlFiles fs 0 new_root log out,
      OF compiler_section_step [OF assms(1)] assms(2) assms(3)]
    foldl_first_value [of None a "map (\<lambda>f. child_or_null (root_of fs f) ''compiler'') xmlFiles"]
  by (simp add: comp_def)

lemma merge_loop_option:
  assumes "length robots = length xmlFiles"
    and "merge_loop L fs robots xmlFiles 0 new_root = (log, Inr out)"
  shows "attribute (child_or_null out ''option'') a =
           first_value a (map (\<lambda>f. child_or_null (root_of fs f) ''option'') xmlFiles)"
  using merge_loop_project [of "\<lambda>n. attribute (child_or_null n ''option'') a" L
      "\<lambda>s v. case s of Some x \<Rightarrow> Some x | None \<Rightarrow> v"
      "\<lambda>n. attribute (child_or_null n ''option'') a" robots xmlFiles fs 0 new_root log out,
      OF option_section_step assms(1) assms(2)]
    foldl_first_value [of None a "map (\<lambda>f. child_or_null (root_of fs f) ''option'') xmlFiles"]
  by (simp add: comp_def)

section \<open>First value wins in the children of a section\<close>

lemma children_merge_attr [simp]:
  "children (fst (merge_attr node fileIn exclude (out, log) kv)) = children out"
  by (cases kv) (simp add: merge_attr_def split: option.splits)

lemma children_foldl_merge_attr [simp]:
  "children (fst (foldl (merge_attr node fileIn exclude) (out, log) xs)) = children out"
proof (induction xs arbitrary: out log)
  case Nil
  then show ?case by simp
next
  case (Cons kv xs)
  obtain out1 log1 where st: "merge_attr node fileIn exclude (out, log) kv = (out1, log1)"
    by (cases "merge_attr node fileIn exclude (out, log) kv")
  from children_merge_attr [of node fileIn exclude out log kv] st
  have "children out1 = children out" by simp
  with Cons.IH [of out1 log1] st show ?case by simp
qed

lemma children_merge_mujoco_node [simp]:
  "children (fst (merge_mujoco_node node fileIn inp out exclude)) = children out"
  by (simp add: merge_mujoco_node_def)

lemma child_merge_mujoco_node [simp]:
  "child (fst (merge_mujoco_node node fileIn inp out exclude)) t = child out t"
  by (simp add: child_def)

lemma first_value_append:
  "first_value b (xs @ ys) =
     (case first_value b xs of Some v \<Rightarrow> Some v | None \<Rightarrow> first_value b ys)"
  by (induction xs) (auto split: option.splits)

lemma foldl_first_value_concat:
  "foldl (\<lambda>s v. case s of Some x \<Rightarrow> Some x | None \<Rightarrow> v) s (map (first_value b) nss) =
     (case s of Some x \<Rightarrow> Some x | None \<Rightarrow> first_value b (concat nss))"
  by (induction nss arbitrary: s) (auto simp: first_value_append split: option.splits)

lemma child_or_null_snd_get_child_or_create:
  "child_or_null (snd (get_child_or_create out tag)) t = child_or_null (child_or_null out tag) t"
  by (simp add: get_child_or_create_def child_or_null_def null_node_def child_def
        split: option.splits)

text \<open>
  Merging a leaf \<open>c\<close> into the output child of its name is one \<open>in_section\<close> step: the
  child named as \<open>c\<close> takes the attributes of \<open>c\<close> it lacks, every other child stays.
\<close>

lemma leaf_step:
  "attribute (child_or_null
       (fst (in_section out (name c) (\<lambda>sec. merge_mujoco_node node fileIn c sec []))) t) b =
     (if name c = t
      then (case attribute (child_or_null out t) b of
              Some v \<Rightarrow> Some v
            | None \<Rightarrow> attribute c b)
      else attribute (child_or_null out t) b)"
proof -
  let ?f = "\<lambda>sec. merge_mujoco_node node fileIn c sec []"
  have c: "child (fst (in_section out (name c) ?f)) t =
          (if t = name c
           then Some (fst (?f (snd (get_child_or_create out (name c)))))
           else child out t)"
    by (rule child_in_section) simp
  show ?thesis
  proof (cases "name c = t")
    case True
    with c have "child_or_null (fst (in_section out (name c) ?f)) t =
        fst (?f (snd (get_child_or_create out t)))"
      by (simp add: child_or_null_def)
    then show ?thesis
      using True by (simp add: merge_mujoco_node_first attribute_snd_get_child_or_create)
  next
    case False
    with c have "child_or_null (fst (in_section out (name c) ?f)) t = child_or_null out t"
      by (auto simp: child_or_null_def)
    then show ?thesis using False by simp
  qed
qed

lemma fst_merge_visual_child:
  "fst (merge_visual_child fileIn st c) =
     fst (in_section (fst st) (name c)
            (\<lambda>sec. merge_mujoco_node (''visual/'' @ name c) fileIn c sec []))"
  by (simp add: merge_visual_child_def in_section_def split_def Let_def)

lemma foldl_merge_visual_child_first:
  "attribute (child_or_null (fst (foldl (merge_visual_child fileIn) st cs)) t) b =
     (case attribute (child_or_null (fst st) t) b of
        Some v \<Rightarrow> Some v
      | None \<Rightarrow> first_value b (filter (\<lambda>c. name c = t) cs))"
proof (induction cs arbitrary: st)
  case Nil
  then show ?case by (simp split: option.splits)
next
  case (Cons c cs)
  note ih = Cons.IH [of "merge_visual_child fileIn st c"]
  note st = leaf_step [of "fst st" c "''visual/'' @ name c" fileIn t b]
  show ?case
  proof (cases "name c = t")
    case True
    with ih st show ?thesis by (simp add: fst_merge_visual_child split: option.splits)
  next
    case False
    with ih st show ?thesis by (simp add: fst_merge_visual_child split: option.splits)
  qed
qed

lemma merge_mujoco_visual_first:
  "attribute (child_or_null (fst (merge_mujoco_visual fileIn inp out)) t) b =
     (case attribute (child_or_null out t) b of
        Some v \<Rightarrow> Some v
      | None \<Rightarrow> first_value b (children_named inp t))"
  unfolding merge_mujoco_visual_def children_named_def
  by (simp add: foldl_merge_visual_child_first)

lemma child_append_copy:
  "child (append_copy out x) t =
     (case child out t of Some y \<Rightarrow> Some y | None \<Rightarrow> if name x = t then Some x else None)"
  by (simp add: child_def find_append_name split: option.splits)

lemma name_add_prefix_recursively [simp]: "name (add_prefix_recursively p n bs) = name n"
  by (cases n) simp

lemma fst_merge_default_child:
  "fst (merge_default_child fileIn robot st c) =
     (if name c = ''default''
      then append_copy (fst st) (add_prefix_recursively robot c default_attrs)
      else fst (in_section (fst st) (name c)
                  (\<lambda>sec. merge_mujoco_node (''default/'' @ name c) fileIn c sec [])))"
  by (simp add: merge_default_child_def in_section_def split_def Let_def)

lemma foldl_merge_default_child_first:
  "t \<noteq> ''default'' \<Longrightarrow>
     attribute (child_or_null (fst (foldl (merge_default_child fileIn robot) st cs)) t) b =
       (case attribute (child_or_null (fst st) t) b of
          Some v \<Rightarrow> Some v
        | None \<Rightarrow> first_value b (filter (\<lambda>c. name c = t) cs))"
proof (induction cs arbitrary: st)
  case Nil
  then show ?case by (simp split: option.splits)
next
  case (Cons c cs)
  note ih = Cons.IH [OF Cons.prems, of "merge_default_child fileIn robot st c"]
  show ?case
  proof (cases "name c = ''default''")
    case True
    with Cons.prems have nt: "name c \<noteq> t" by simp
    from True Cons.prems
    have "child_or_null (fst (merge_default_child fileIn robot st c)) t = child_or_null (fst st) t"
      by (simp add: fst_merge_default_child child_or_null_def child_append_copy
            split: option.splits)
    with ih nt show ?thesis by (simp split: option.splits)
  next
    case False
    note st = leaf_step [of "fst st" c "''default/'' @ name c" fileIn t b]
    show ?thesis
    proof (cases "name c = t")
      case True
      with ih st False show ?thesis
        by (simp add: fst_merge_default_child split: option.splits)
    next
      case nt: False
      with ih st False show ?thesis by (simp add: fst_merge_default_child split: option.splits)
    qed
  qed
qed

lemma merge_mujoco_default_first:
  "t \<noteq> ''default'' \<Longrightarrow>
     attribute (child_or_null (fst (merge_mujoco_default fileIn inp out robot)) t) b =
       (case attribute (child_or_null out t) b of
          Some v \<Rightarrow> Some v
        | None \<Rightarrow> first_value b (children_named inp t))"
  unfolding merge_mujoco_default_def children_named_def
  by (simp add: foldl_merge_default_child_first)

lemma merge_mujoco_option_flag_first:
  "attribute (child_or_null (fst (merge_mujoco_option fileIn inp out)) ''flag'') b =
     (case attribute (child_or_null out ''flag'') b of
        Some v \<Rightarrow> Some v
      | None \<Rightarrow> attribute (child_or_null inp ''flag'') b)"
proof (cases "child inp ''flag''")
  case None
  then have "fst (merge_mujoco_option fileIn inp out) =
               fst (merge_mujoco_node ''option'' fileIn inp out [])"
    by (simp add: merge_mujoco_option_def split_def Let_def)
  with None show ?thesis
    by (simp add: child_or_null_def null_node_def attribute_def split: option.splits)
next
  case (Some flag)
  let ?out1 = "fst (merge_mujoco_node ''option'' fileIn inp out [])"
  from Some have e: "fst (merge_mujoco_option fileIn inp out) =
      fst (in_section ?out1 ''flag'' (\<lambda>sec. merge_mujoco_node ''option/flag'' fileIn flag sec []))"
    by (simp add: merge_mujoco_option_def in_section_def split_def Let_def)
  have "child (fst (in_section ?out1 ''flag''
                 (\<lambda>sec. merge_mujoco_node ''option/flag'' fileIn flag sec []))) ''flag'' =
          Some (fst (merge_mujoco_node ''option/flag'' fileIn flag
                       (snd (get_child_or_create ?out1 ''flag'')) []))"
    using child_in_section [of "\<lambda>sec. merge_mujoco_node ''option/flag'' fileIn flag sec []"
        ?out1 "''flag''" "''flag''"] by simp
  with e have c: "child_or_null (fst (merge_mujoco_option fileIn inp out)) ''flag'' =
      fst (merge_mujoco_node ''option/flag'' fileIn flag
             (snd (get_child_or_create ?out1 ''flag'')) [])"
    by (simp add: child_or_null_def)
  have o: "child_or_null ?out1 ''flag'' = child_or_null out ''flag''"
    by (simp add: child_or_null_def)
  from Some have f: "child_or_null inp ''flag'' = flag"
    by (simp add: child_or_null_def)
  show ?thesis
    by (simp add: c merge_mujoco_node_first attribute_snd_get_child_or_create o f
          split: option.splits)
qed


lemma flag_section_step:
  "attribute (child_or_null (child_or_null (fst (merge_sections L robot xmlFile root out))
       ''option'') ''flag'') b =
     (case attribute (child_or_null (child_or_null out ''option'') ''flag'') b of
        Some x \<Rightarrow> Some x
      | None \<Rightarrow> attribute (child_or_null (child_or_null root ''option'') ''flag'') b)"
proof -
  have m: "map_of (section_mergers L robot xmlFile root) ''option'' =
             Some (merge_mujoco_option xmlFile (child_or_null root ''option''))"
    by (simp add: section_mergers_def)
  have "child_or_null (fst (merge_sections L robot xmlFile root out)) ''option'' =
          fst (merge_mujoco_option xmlFile (child_or_null root ''option'')
                 (snd (get_child_or_create out ''option'')))"
    by (simp add: child_or_null_def child_merge_sections m)
  then show ?thesis
    by (simp add: merge_mujoco_option_flag_first child_or_null_snd_get_child_or_create)
qed

lemma default_section_step:
  assumes "t \<noteq> ''default''"
  shows "attribute (child_or_null (child_or_null (fst (merge_sections L robot xmlFile root out))
       ''default'') t) b =
     (case attribute (child_or_null (child_or_null out ''default'') t) b of
        Some x \<Rightarrow> Some x
      | None \<Rightarrow> first_value b (children_named (child_or_null root ''default'') t))"
proof -
  have m: "map_of (section_mergers L robot xmlFile root) ''default'' =
             Some (\<lambda>sec. merge_mujoco_default xmlFile (child_or_null root ''default'') sec robot)"
    by (simp add: section_mergers_def)
  have "child_or_null (fst (merge_sections L robot xmlFile root out)) ''default'' =
          fst (merge_mujoco_default xmlFile (child_or_null root ''default'')
                 (snd (get_child_or_create out ''default'')) robot)"
    by (simp add: child_or_null_def child_merge_sections m)
  then show ?thesis
    by (simp add: merge_mujoco_default_first [OF assms] child_or_null_snd_get_child_or_create)
qed

lemma visual_section_step:
  "attribute (child_or_null (child_or_null (fst (merge_sections L robot xmlFile root out))
       ''visual'') t) b =
     (case attribute (child_or_null (child_or_null out ''visual'') t) b of
        Some x \<Rightarrow> Some x
      | None \<Rightarrow> first_value b (children_named (child_or_null root ''visual'') t))"
proof -
  have m: "map_of (section_mergers L robot xmlFile root) ''visual'' =
             Some (merge_mujoco_visual xmlFile (child_or_null root ''visual''))"
    by (simp add: section_mergers_def)
  have "child_or_null (fst (merge_sections L robot xmlFile root out)) ''visual'' =
          fst (merge_mujoco_visual xmlFile (child_or_null root ''visual'')
                 (snd (get_child_or_create out ''visual'')))"
    by (simp add: child_or_null_def child_merge_sections m)
  then show ?thesis
    by (simp add: merge_mujoco_visual_first child_or_null_snd_get_child_or_create)
qed

lemma new_root_subsections:
  "attribute (child_or_null (child_or_null new_root s) t) a = None"
  by (simp add: new_root_def child_or_null_def child_def null_node_def attribute_def
        append_attribute_def)

lemma merge_loop_flag:
  assumes "length robots = length xmlFiles"
    and "merge_loop L fs robots xmlFiles 0 new_root = (log, Inr out)"
  shows "attribute (child_or_null (child_or_null out ''option'') ''flag'') b =
           first_value b
             (map (\<lambda>f. child_or_null (child_or_null (root_of fs f) ''option'') ''flag'') xmlFiles)"
  using merge_loop_project
      [of "\<lambda>n. attribute (child_or_null (child_or_null n ''option'') ''flag'') b" L
      "\<lambda>s v. case s of Some x \<Rightarrow> Some x | None \<Rightarrow> v"
      "\<lambda>n. attribute (child_or_null (child_or_null n ''option'') ''flag'') b"
      robots xmlFiles fs 0 new_root log out,
      OF flag_section_step assms(1) assms(2)]
    foldl_first_value [of None b
      "map (\<lambda>f. child_or_null (child_or_null (root_of fs f) ''option'') ''flag'') xmlFiles"]
  by (simp add: comp_def new_root_subsections)

lemma merge_loop_default:
  assumes "t \<noteq> ''default''" "length robots = length xmlFiles"
    and "merge_loop L fs robots xmlFiles 0 new_root = (log, Inr out)"
  shows "attribute (child_or_null (child_or_null out ''default'') t) b =
           first_value b
             (concat (map (\<lambda>f. children_named (child_or_null (root_of fs f) ''default'') t)
                xmlFiles))"
  using merge_loop_project
      [of "\<lambda>n. attribute (child_or_null (child_or_null n ''default'') t) b" L
      "\<lambda>s v. case s of Some x \<Rightarrow> Some x | None \<Rightarrow> v"
      "\<lambda>n. first_value b (children_named (child_or_null n ''default'') t)"
      robots xmlFiles fs 0 new_root log out,
      OF default_section_step [OF assms(1)] assms(2) assms(3)]
    foldl_first_value_concat [of None b
      "map (\<lambda>f. children_named (child_or_null (root_of fs f) ''default'') t) xmlFiles"]
  by (simp add: comp_def new_root_subsections)

lemma merge_loop_visual:
  assumes "length robots = length xmlFiles"
    and "merge_loop L fs robots xmlFiles 0 new_root = (log, Inr out)"
  shows "attribute (child_or_null (child_or_null out ''visual'') t) b =
           first_value b
             (concat (map (\<lambda>f. children_named (child_or_null (root_of fs f) ''visual'') t)
                xmlFiles))"
  using merge_loop_project
      [of "\<lambda>n. attribute (child_or_null (child_or_null n ''visual'') t) b" L
      "\<lambda>s v. case s of Some x \<Rightarrow> Some x | None \<Rightarrow> v"
      "\<lambda>n. first_value b (children_named (child_or_null n ''visual'') t)"
      robots xmlFiles fs 0 new_root log out,
      OF visual_section_step assms(1) assms(2)]
    foldl_first_value_concat [of None b
      "map (\<lambda>f. children_named (child_or_null (root_of fs f) ''visual'') t) xmlFiles"]
  by (simp add: comp_def new_root_subsections)

section \<open>The merge of two documents that disagree everywhere\<close>

lemma example_loop_pq:
  "merge_loop (posix_lib ''/work'') conflict_files [''r1'', ''r2''] [''/m/p.xml'', ''/m/q.xml'']
     0 new_root =
   ([Load_file ''/m/p.xml'', Load_file ''/m/q.xml'',
     Critical ''compiler'' ''angle'' ''/m/q.xml'' ''degree'' ''radian'',
     Critical ''option'' ''integrator'' ''/m/q.xml'' ''RK4'' ''Euler'',
     Critical ''option/flag'' ''gravity'' ''/m/q.xml'' ''disable'' ''enable'',
     Critical ''default/geom'' ''rgba'' ''/m/q.xml'' ''0 0 1 1'' ''1 0 0 1'',
     Critical ''visual/global'' ''offwidth'' ''/m/q.xml'' ''1024'' ''800''],
    Inr merged_pq)"
  by (simp add: merge_eval node_eval posix_eval dec_eval conflict_files_def doc_p_def doc_q_def
        merged_pq_def)

lemma example_loop_qp:
  "merge_loop (posix_lib ''/work'') conflict_files [''r2'', ''r1''] [''/m/q.xml'', ''/m/p.xml'']
     0 new_root =
   ([Load_file ''/m/q.xml'', Load_file ''/m/p.xml'',
     Critical ''compiler'' ''angle'' ''/m/p.xml'' ''radian'' ''degree'',
     Critical ''option'' ''integrator'' ''/m/p.xml'' ''Euler'' ''RK4'',
     Critical ''option/flag'' ''gravity'' ''/m/p.xml'' ''enable'' ''disable'',
     Critical ''default/geom'' ''rgba'' ''/m/p.xml'' ''1 0 0 1'' ''0 0 1 1'',
     Critical ''visual/global'' ''offwidth'' ''/m/p.xml'' ''800'' ''1024''],
    Inr merged_qp)"
  by (simp add: merge_eval node_eval posix_eval dec_eval conflict_files_def doc_p_def doc_q_def
        merged_qp_def)

lemma example_merge_pq:
  "merge_mujoco_models (posix_lib ''/work'') conflict_files [''r1'', ''r2'']
     [''/m/p.xml'', ''/m/q.xml''] =
   ([Load_file ''/m/p.xml'', Load_file ''/m/q.xml'',
     Critical ''compiler'' ''angle'' ''/m/q.xml'' ''degree'' ''radian'',
     Critical ''option'' ''integrator'' ''/m/q.xml'' ''RK4'' ''Euler'',
     Critical ''option/flag'' ''gravity'' ''/m/q.xml'' ''disable'' ''enable'',
     Critical ''default/geom'' ''rgba'' ''/m/q.xml'' ''0 0 1 1'' ''1 0 0 1'',
     Critical ''visual/global'' ''offwidth'' ''/m/q.xml'' ''1024'' ''800'',
     Save ''/tmp/mc_mujoco.xml'' (Node [] [] [merged_pq])],
    Inr ''/tmp/mc_mujoco.xml'')"
  by (simp add: merge_mujoco_models_def example_loop_pq outFile_def)

lemma example_merge_qp:
  "merge_mujoco_models (posix_lib ''/work'') conflict_files [''r2'', ''r1'']
     [''/m/q.xml'', ''/m/p.xml''] =
   ([Load_file ''/m/q.xml'', Load_file ''/m/p.xml'',
     Critical ''compiler'' ''angle'' ''/m/p.xml'' ''radian'' ''degree'',
     Critical ''option'' ''integrator'' ''/m/p.xml'' ''Euler'' ''RK4'',
     Critical ''option/flag'' ''gravity'' ''/m/p.xml'' ''enable'' ''disable'',
     Critical ''default/geom'' ''rgba'' ''/m/p.xml'' ''1 0 0 1'' ''0 0 1 1'',
     Critical ''visual/global'' ''offwidth'' ''/m/p.xml'' ''800'' ''1024'',
     Save ''/tmp/mc_mujoco.xml'' (Node [] [] [merged_qp])],
    Inr ''/tmp/mc_mujoco.xml'')"
  by (simp add: merge_mujoco_models_def example_loop_qp outFile_def)

section \<open>Order of the entities\<close>

lemma merged_root:
  assumes "merge_mujoco_models L fs robots xmlFiles = (log, Inr p)"
    and "saved log = [(p, Node [] [] [out])]"
  shows "\<exists>log0. merge_loop L fs robots xmlFiles 0 new_root = (log0, Inr out)"
proof -
  have "length xmlFiles \<noteq> 1"
  proof
    assume "length xmlFiles = 1"
    with assms(1) have "log = []" by (simp add: merge_mujoco_models_def)
    with assms(2) show False by simp
  qed
  from merge_mujoco_models_saves [OF assms(1) this] assms(2) show ?thesis by auto
qed

text \<open>
  C9. Two runs of \<^verbatim>\<open>merge_mujoco_models\<close> on entity lists that are permutations of each
  other, both ending with a saved document, with roots \<open>out\<close> and \<open>out'\<close>. Provided
  \<^verbatim>\<open>as_int\<close> reads back the numeral \<^verbatim>\<open>set_value(int)\<close> writes, every size counter has the
  same value in the \<^verbatim>\<open>size\<close> section of \<open>out\<close> and of \<open>out'\<close>. At every place where
  \<^verbatim>\<open>merge_mujoco_node\<close> merges attributes, an attribute of the merged node holds the value
  of the first entity, in list order, that declares it, so the winner depends on the
  order. These places are: the \<^verbatim>\<open>compiler\<close> section (but for the two directories, which
  are not merged), the \<^verbatim>\<open>option\<close> section, the \<^verbatim>\<open>flag\<close> child of \<^verbatim>\<open>option\<close> (of each entity
  its first \<^verbatim>\<open>flag\<close> child), every child of \<^verbatim>\<open>default\<close> that is not itself named
  \<^verbatim>\<open>default\<close> (those are copied, not merged), and every child of \<^verbatim>\<open>visual\<close>; in the last
  two, the children of that name of all entities are read in list order, and within an
  entity in document order.
\<close>

theorem size_totals_ignore_order_first_value_wins:
  assumes rt: "\<forall>w. as_int L (int_to_string L w) = w"
    and len: "length robots = length xmlFiles" "length robots' = length xmlFiles'"
    and perm: "mset (zip robots xmlFiles) = mset (zip robots' xmlFiles')"
    and m: "merge_mujoco_models L fs robots xmlFiles = (log, Inr p)"
      "saved log = [(p, Node [] [] [out])]"
    and m': "merge_mujoco_models L fs robots' xmlFiles' = (log', Inr p')"
      "saved log' = [(p', Node [] [] [out'])]"
  shows "(\<forall>a \<in> set size_attributes.
            attribute (child_or_null out ''size'') a = attribute (child_or_null out' ''size'') a) \<and>
         (\<forall>b. b \<notin> {''meshdir'', ''texturedir''} \<longrightarrow>
            attribute (child_or_null out ''compiler'') b =
              first_value b (map (\<lambda>f. child_or_null (root_of fs f) ''compiler'') xmlFiles)) \<and>
         (\<forall>b. attribute (child_or_null out ''option'') b =
              first_value b (map (\<lambda>f. child_or_null (root_of fs f) ''option'') xmlFiles)) \<and>
         (\<forall>b. attribute (child_or_null (child_or_null out ''option'') ''flag'') b =
              first_value b
                (map (\<lambda>f. child_or_null (child_or_null (root_of fs f) ''option'') ''flag'')
                   xmlFiles)) \<and>
         (\<forall>t b. t \<noteq> ''default'' \<longrightarrow>
            attribute (child_or_null (child_or_null out ''default'') t) b =
              first_value b
                (concat (map (\<lambda>f. children_named (child_or_null (root_of fs f) ''default'') t)
                   xmlFiles))) \<and>
         (\<forall>t b. attribute (child_or_null (child_or_null out ''visual'') t) b =
              first_value b
                (concat (map (\<lambda>f. children_named (child_or_null (root_of fs f) ''visual'') t)
                   xmlFiles)))"
proof -
  from merged_root [OF m] obtain log0 where
    l: "merge_loop L fs robots xmlFiles 0 new_root = (log0, Inr out)" by blast
  from merged_root [OF m'] obtain log0' where
    l': "merge_loop L fs robots' xmlFiles' 0 new_root = (log0', Inr out')" by blast
  have "mset (map snd (zip robots xmlFiles)) = mset (map snd (zip robots' xmlFiles'))"
    using perm by (metis mset_map)
  with len have files: "mset xmlFiles = mset xmlFiles'" by simp
  have size: "attribute (child_or_null out ''size'') a = attribute (child_or_null out' ''size'') a"
    if a: "a \<in> set size_attributes" for a
  proof -
    let ?h = "\<lambda>f. attribute (child_or_null (root_of fs f) ''size'') a"
    from files have "mset (map ?h xmlFiles) = mset (map ?h xmlFiles')" by simp
    from foldl_accumulate_perm [OF _ this, of L] rt
    have "foldl (accumulate L) None (map ?h xmlFiles) = foldl (accumulate L) None (map ?h xmlFiles')"
      by simp
    with merge_loop_size [OF a len(1) l] merge_loop_size [OF a len(2) l'] show ?thesis by simp
  qed
  from size have c1: "\<forall>a \<in> set size_attributes.
      attribute (child_or_null out ''size'') a = attribute (child_or_null out' ''size'') a"
    by blast
  from merge_loop_compiler [OF _ len(1) l]
  have c2: "\<forall>b. b \<notin> {''meshdir'', ''texturedir''} \<longrightarrow>
      attribute (child_or_null out ''compiler'') b =
        first_value b (map (\<lambda>f. child_or_null (root_of fs f) ''compiler'') xmlFiles)"
    by blast
  from merge_loop_option [OF len(1) l]
  have c3: "\<forall>b. attribute (child_or_null out ''option'') b =
      first_value b (map (\<lambda>f. child_or_null (root_of fs f) ''option'') xmlFiles)"
    by blast
  from merge_loop_flag [OF len(1) l]
  have c4: "\<forall>b. attribute (child_or_null (child_or_null out ''option'') ''flag'') b =
      first_value b
        (map (\<lambda>f. child_or_null (child_or_null (root_of fs f) ''option'') ''flag'') xmlFiles)"
    by blast
  from merge_loop_default [OF _ len(1) l]
  have c5: "\<forall>t b. t \<noteq> ''default'' \<longrightarrow>
      attribute (child_or_null (child_or_null out ''default'') t) b =
        first_value b
          (concat (map (\<lambda>f. children_named (child_or_null (root_of fs f) ''default'') t)
             xmlFiles))"
    by blast
  from merge_loop_visual [OF len(1) l]
  have c6: "\<forall>t b. attribute (child_or_null (child_or_null out ''visual'') t) b =
      first_value b
        (concat (map (\<lambda>f. children_named (child_or_null (root_of fs f) ''visual'') t)
           xmlFiles))"
    by blast
  from c1 c2 c3 c4 c5 c6 show ?thesis by (intro conjI) assumption+
qed

theorem size_totals_ignore_order_first_value_wins_witness:
  "(\<forall>w. as_int (posix_lib ''/work'') (int_to_string (posix_lib ''/work'') w) = w) \<and>
   length [''r1'', ''r2''] = length [''/m/p.xml'', ''/m/q.xml''] \<and>
   length [''r2'', ''r1''] = length [''/m/q.xml'', ''/m/p.xml''] \<and>
   mset (zip [''r1'', ''r2''] [''/m/p.xml'', ''/m/q.xml'']) =
     mset (zip [''r2'', ''r1''] [''/m/q.xml'', ''/m/p.xml'']) \<and>
   snd (merge_mujoco_models (posix_lib ''/work'') conflict_files [''r1'', ''r2'']
          [''/m/p.xml'', ''/m/q.xml'']) = Inr ''/tmp/mc_mujoco.xml'' \<and>
   saved (fst (merge_mujoco_models (posix_lib ''/work'') conflict_files [''r1'', ''r2'']
          [''/m/p.xml'', ''/m/q.xml''])) =
     [(''/tmp/mc_mujoco.xml'', Node [] [] [merged_pq])] \<and>
   snd (merge_mujoco_models (posix_lib ''/work'') conflict_files [''r2'', ''r1'']
          [''/m/q.xml'', ''/m/p.xml'']) = Inr ''/tmp/mc_mujoco.xml'' \<and>
   saved (fst (merge_mujoco_models (posix_lib ''/work'') conflict_files [''r2'', ''r1'']
          [''/m/q.xml'', ''/m/p.xml''])) =
     [(''/tmp/mc_mujoco.xml'', Node [] [] [merged_qp])] \<and>
   ''njmax'' \<in> set size_attributes \<and>
   attribute (child_or_null merged_pq ''size'') ''njmax'' =
     attribute (child_or_null merged_qp ''size'') ''njmax'' \<and>
   attribute (child_or_null merged_pq ''size'') ''njmax'' = Some ''15'' \<and>
   attribute (child_or_null merged_pq ''compiler'') ''angle'' =
     first_value ''angle''
       (map (\<lambda>f. child_or_null (root_of conflict_files f) ''compiler'')
          [''/m/p.xml'', ''/m/q.xml'']) \<and>
   attribute (child_or_null merged_pq ''compiler'') ''angle'' = Some ''radian'' \<and>
   attribute (child_or_null merged_qp ''compiler'') ''angle'' =
     first_value ''angle''
       (map (\<lambda>f. child_or_null (root_of conflict_files f) ''compiler'')
          [''/m/q.xml'', ''/m/p.xml'']) \<and>
   attribute (child_or_null merged_qp ''compiler'') ''angle'' = Some ''degree'' \<and>
   attribute (child_or_null merged_pq ''option'') ''integrator'' =
     first_value ''integrator''
       (map (\<lambda>f. child_or_null (root_of conflict_files f) ''option'')
          [''/m/p.xml'', ''/m/q.xml'']) \<and>
   attribute (child_or_null merged_pq ''option'') ''integrator'' = Some ''Euler'' \<and>
   attribute (child_or_null merged_qp ''option'') ''integrator'' =
     first_value ''integrator''
       (map (\<lambda>f. child_or_null (root_of conflict_files f) ''option'')
          [''/m/q.xml'', ''/m/p.xml'']) \<and>
   attribute (child_or_null merged_qp ''option'') ''integrator'' = Some ''RK4'' \<and>
   attribute (child_or_null (child_or_null merged_pq ''option'') ''flag'') ''gravity'' =
     first_value ''gravity''
       (map (\<lambda>f. child_or_null (child_or_null (root_of conflict_files f) ''option'') ''flag'')
          [''/m/p.xml'', ''/m/q.xml'']) \<and>
   attribute (child_or_null (child_or_null merged_pq ''option'') ''flag'') ''gravity'' =
     Some ''enable'' \<and>
   attribute (child_or_null (child_or_null merged_qp ''option'') ''flag'') ''gravity'' =
     first_value ''gravity''
       (map (\<lambda>f. child_or_null (child_or_null (root_of conflict_files f) ''option'') ''flag'')
          [''/m/q.xml'', ''/m/p.xml'']) \<and>
   attribute (child_or_null (child_or_null merged_qp ''option'') ''flag'') ''gravity'' =
     Some ''disable'' \<and>
   ''geom'' \<noteq> ''default'' \<and>
   attribute (child_or_null (child_or_null merged_pq ''default'') ''geom'') ''rgba'' =
     first_value ''rgba''
       (concat (map (\<lambda>f. children_named (child_or_null (root_of conflict_files f) ''default'')
                        ''geom'')
          [''/m/p.xml'', ''/m/q.xml''])) \<and>
   attribute (child_or_null (child_or_null merged_pq ''default'') ''geom'') ''rgba'' =
     Some ''1 0 0 1'' \<and>
   attribute (child_or_null (child_or_null merged_qp ''default'') ''geom'') ''rgba'' =
     first_value ''rgba''
       (concat (map (\<lambda>f. children_named (child_or_null (root_of conflict_files f) ''default'')
                        ''geom'')
          [''/m/q.xml'', ''/m/p.xml''])) \<and>
   attribute (child_or_null (child_or_null merged_qp ''default'') ''geom'') ''rgba'' =
     Some ''0 0 1 1'' \<and>
   attribute (child_or_null (child_or_null merged_pq ''visual'') ''global'') ''offwidth'' =
     first_value ''offwidth''
       (concat (map (\<lambda>f. children_named (child_or_null (root_of conflict_files f) ''visual'')
                        ''global'')
          [''/m/p.xml'', ''/m/q.xml''])) \<and>
   attribute (child_or_null (child_or_null merged_pq ''visual'') ''global'') ''offwidth'' =
     Some ''800'' \<and>
   attribute (child_or_null (child_or_null merged_qp ''visual'') ''global'') ''offwidth'' =
     first_value ''offwidth''
       (concat (map (\<lambda>f. children_named (child_or_null (root_of conflict_files f) ''visual'')
                        ''global'')
          [''/m/q.xml'', ''/m/p.xml''])) \<and>
   attribute (child_or_null (child_or_null merged_qp ''visual'') ''global'') ''offwidth'' =
     Some ''1024''"
proof -
  let ?L = "posix_lib ''/work''"
  let ?pq = "merge_mujoco_models ?L conflict_files [''r1'', ''r2''] [''/m/p.xml'', ''/m/q.xml'']"
  let ?qp = "merge_mujoco_models ?L conflict_files [''r2'', ''r1''] [''/m/q.xml'', ''/m/p.xml'']"
  have rt: "\<forall>w. as_int ?L (int_to_string ?L w) = w"
    by (simp add: posix_lib_round_trip)
  have l1: "length [''r1'', ''r2''] = length [''/m/p.xml'', ''/m/q.xml'']" by simp
  have l2: "length [''r2'', ''r1''] = length [''/m/q.xml'', ''/m/p.xml'']" by simp
  have pm: "mset (zip [''r1'', ''r2''] [''/m/p.xml'', ''/m/q.xml'']) =
              mset (zip [''r2'', ''r1''] [''/m/q.xml'', ''/m/p.xml''])"
    by (simp add: add_mset_commute)
  have m1: "?pq = (fst ?pq, Inr ''/tmp/mc_mujoco.xml'')"
    by (simp add: example_merge_pq)
  have s1: "saved (fst ?pq) = [(''/tmp/mc_mujoco.xml'', Node [] [] [merged_pq])]"
    by (simp add: example_merge_pq)
  have m2: "?qp = (fst ?qp, Inr ''/tmp/mc_mujoco.xml'')"
    by (simp add: example_merge_qp)
  have s2: "saved (fst ?qp) = [(''/tmp/mc_mujoco.xml'', Node [] [] [merged_qp])]"
    by (simp add: example_merge_qp)
  have e1: "snd ?pq = Inr ''/tmp/mc_mujoco.xml''"
    by (simp add: example_merge_pq)
  have e2: "snd ?qp = Inr ''/tmp/mc_mujoco.xml''"
    by (simp add: example_merge_qp)
  have nj: "''njmax'' \<in> set size_attributes" by (simp add: size_attributes_def)
  have an: "''angle'' \<notin> {''meshdir'', ''texturedir''}" by simp
  have ge: "''geom'' \<noteq> ''default''" by simp
  note t1 = size_totals_ignore_order_first_value_wins [OF rt l1 l2 pm m1 s1 m2 s2]
  note t2 = size_totals_ignore_order_first_value_wins [OF rt l2 l1 pm [symmetric] m2 s2 m1 s1]
  note r1 = conjunct2 [OF t1]
  note r2 = conjunct2 [OF t2]
  note o1 = conjunct2 [OF r1]
  note o2 = conjunct2 [OF r2]
  note f1 = conjunct2 [OF o1]
  note f2 = conjunct2 [OF o2]
  note d1 = conjunct2 [OF f1]
  note d2 = conjunct2 [OF f2]
  have a1: "attribute (child_or_null merged_pq ''size'') ''njmax'' =
     attribute (child_or_null merged_qp ''size'') ''njmax''"
    by (rule bspec [OF conjunct1 [OF t1] nj])
  have a2: "attribute (child_or_null merged_pq ''size'') ''njmax'' = Some ''15''"
    by (simp add: node_eval merged_pq_def)
  have b1: "attribute (child_or_null merged_pq ''compiler'') ''angle'' =
     first_value ''angle''
       (map (\<lambda>f. child_or_null (root_of conflict_files f) ''compiler'')
          [''/m/p.xml'', ''/m/q.xml''])"
    by (rule mp [OF spec [OF conjunct1 [OF r1]] an])
  have b2: "attribute (child_or_null merged_pq ''compiler'') ''angle'' = Some ''radian''"
    by (simp add: node_eval merged_pq_def)
  have b3: "attribute (child_or_null merged_qp ''compiler'') ''angle'' =
     first_value ''angle''
       (map (\<lambda>f. child_or_null (root_of conflict_files f) ''compiler'')
          [''/m/q.xml'', ''/m/p.xml''])"
    by (rule mp [OF spec [OF conjunct1 [OF r2]] an])
  have b4: "attribute (child_or_null merged_qp ''compiler'') ''angle'' = Some ''degree''"
    by (simp add: node_eval merged_qp_def)
  have c1: "attribute (child_or_null merged_pq ''option'') ''integrator'' =
     first_value ''integrator''
       (map (\<lambda>f. child_or_null (root_of conflict_files f) ''option'')
          [''/m/p.xml'', ''/m/q.xml''])"
    by (rule spec [OF conjunct1 [OF o1]])
  have c2: "attribute (child_or_null merged_pq ''option'') ''integrator'' = Some ''Euler''"
    by (simp add: node_eval merged_pq_def)
  have c3: "attribute (child_or_null merged_qp ''option'') ''integrator'' =
     first_value ''integrator''
       (map (\<lambda>f. child_or_null (root_of conflict_files f) ''option'')
          [''/m/q.xml'', ''/m/p.xml''])"
    by (rule spec [OF conjunct1 [OF o2]])
  have c4: "attribute (child_or_null merged_qp ''option'') ''integrator'' = Some ''RK4''"
    by (simp add: node_eval merged_qp_def)
  have g1: "attribute (child_or_null (child_or_null merged_pq ''option'') ''flag'') ''gravity'' =
     first_value ''gravity''
       (map (\<lambda>f. child_or_null (child_or_null (root_of conflict_files f) ''option'') ''flag'')
          [''/m/p.xml'', ''/m/q.xml''])"
    by (rule spec [OF conjunct1 [OF f1]])
  have g2: "attribute (child_or_null (child_or_null merged_pq ''option'') ''flag'') ''gravity'' =
     Some ''enable''"
    by (simp add: node_eval merged_pq_def)
  have g3: "attribute (child_or_null (child_or_null merged_qp ''option'') ''flag'') ''gravity'' =
     first_value ''gravity''
       (map (\<lambda>f. child_or_null (child_or_null (root_of conflict_files f) ''option'') ''flag'')
          [''/m/q.xml'', ''/m/p.xml''])"
    by (rule spec [OF conjunct1 [OF f2]])
  have g4: "attribute (child_or_null (child_or_null merged_qp ''option'') ''flag'') ''gravity'' =
     Some ''disable''"
    by (simp add: node_eval merged_qp_def)
  have h1: "attribute (child_or_null (child_or_null merged_pq ''default'') ''geom'') ''rgba'' =
     first_value ''rgba''
       (concat (map (\<lambda>f. children_named (child_or_null (root_of conflict_files f) ''default'')
                        ''geom'')
          [''/m/p.xml'', ''/m/q.xml'']))"
    by (rule mp [OF spec [OF spec [OF conjunct1 [OF d1]]] ge])
  have h2: "attribute (child_or_null (child_or_null merged_pq ''default'') ''geom'') ''rgba'' =
     Some ''1 0 0 1''"
    by (simp add: node_eval merged_pq_def)
  have h3: "attribute (child_or_null (child_or_null merged_qp ''default'') ''geom'') ''rgba'' =
     first_value ''rgba''
       (concat (map (\<lambda>f. children_named (child_or_null (root_of conflict_files f) ''default'')
                        ''geom'')
          [''/m/q.xml'', ''/m/p.xml'']))"
    by (rule mp [OF spec [OF spec [OF conjunct1 [OF d2]]] ge])
  have h4: "attribute (child_or_null (child_or_null merged_qp ''default'') ''geom'') ''rgba'' =
     Some ''0 0 1 1''"
    by (simp add: node_eval merged_qp_def)
  have v1: "attribute (child_or_null (child_or_null merged_pq ''visual'') ''global'') ''offwidth'' =
     first_value ''offwidth''
       (concat (map (\<lambda>f. children_named (child_or_null (root_of conflict_files f) ''visual'')
                        ''global'')
          [''/m/p.xml'', ''/m/q.xml'']))"
    by (rule spec [OF spec [OF conjunct2 [OF d1]]])
  have v2: "attribute (child_or_null (child_or_null merged_pq ''visual'') ''global'') ''offwidth'' =
     Some ''800''"
    by (simp add: node_eval merged_pq_def)
  have v3: "attribute (child_or_null (child_or_null merged_qp ''visual'') ''global'') ''offwidth'' =
     first_value ''offwidth''
       (concat (map (\<lambda>f. children_named (child_or_null (root_of conflict_files f) ''visual'')
                        ''global'')
          [''/m/q.xml'', ''/m/p.xml'']))"
    by (rule spec [OF spec [OF conjunct2 [OF d2]]])
  have v4: "attribute (child_or_null (child_or_null merged_qp ''visual'') ''global'') ''offwidth'' =
     Some ''1024''"
    by (simp add: node_eval merged_qp_def)
  from rt l1 l2 pm e1 s1 e2 s2 nj a1 a2 b1 b2 b3 b4 c1 c2 c3 c4 g1 g2 g3 g4 ge h1 h2 h3 h4
    v1 v2 v3 v4
  show ?thesis
    by (intro conjI) assumption+
qed

section \<open>The base directories of an entity\<close>

lemma asset_section_after_entity:
  "child (fst (merge_sections L robot xmlFile root out)) ''asset'' =
     Some (merge_mujoco_asset L (child_or_null root ''asset'')
             (snd (get_child_or_create out ''asset''))
             (get_mujoco_path L xmlFile root ''meshdir'')
             (get_mujoco_path L xmlFile root ''texturedir'') robot)"
proof -
  have "map_of (section_mergers L robot xmlFile root) ''asset'' =
          Some (\<lambda>sec. (merge_mujoco_asset L (child_or_null root ''asset'') sec
                  (get_mujoco_path L xmlFile root ''meshdir'')
                  (get_mujoco_path L xmlFile root ''texturedir'') robot, []))"
    by (simp add: section_mergers_def)
  then show ?thesis by (simp add: child_merge_sections)
qed

text \<open>
  C6. The base directory \<^verbatim>\<open>get_mujoco_path\<close> computes for a directory attribute
  (\<^verbatim>\<open>meshdir\<close>, \<^verbatim>\<open>texturedir\<close>) of an entity: when the first \<^verbatim>\<open>compiler\<close> child of the
  root does not carry the attribute, or there is no such child, it is the directory that
  contains the source file; when the attribute holds an absolute path it is that path
  as it stands; otherwise it is the attribute's value resolved against the directory
  that contains the source file, made absolute. The asset section an entity leaves in
  the output is \<^verbatim>\<open>merge_mujoco_asset\<close> run with these two directories, for \<^verbatim>\<open>meshdir\<close>
  and for \<^verbatim>\<open>texturedir\<close>.
\<close>

theorem base_directory_of_entity:
  "(attribute (child_or_null root ''compiler'') a = None \<longrightarrow>
      get_mujoco_path L xmlFile root a = parent_path L xmlFile) \<and>
   (\<forall>d. attribute (child_or_null root ''compiler'') a = Some d \<longrightarrow> is_absolute L d \<longrightarrow>
      get_mujoco_path L xmlFile root a = d) \<and>
   (\<forall>d. attribute (child_or_null root ''compiler'') a = Some d \<longrightarrow> \<not> is_absolute L d \<longrightarrow>
      get_mujoco_path L xmlFile root a = absolute L (path_append L (parent_path L xmlFile) d)) \<and>
   child (fst (merge_sections L robot xmlFile root out)) ''asset'' =
     Some (merge_mujoco_asset L (child_or_null root ''asset'')
             (snd (get_child_or_create out ''asset''))
             (get_mujoco_path L xmlFile root ''meshdir'')
             (get_mujoco_path L xmlFile root ''texturedir'') robot)"
  by (simp add: get_mujoco_path_def asset_section_after_entity)

theorem base_directory_of_entity_witness:
  "attribute (child_or_null (Node ''mujoco'' [] [Node ''worldbody'' [] []]) ''compiler'') ''meshdir''
     = None \<and>
   get_mujoco_path (posix_lib ''/work'') ''/home/u/robot.xml''
     (Node ''mujoco'' [] [Node ''worldbody'' [] []]) ''meshdir'' = ''/home/u'' \<and>
   attribute (child_or_null (Node ''mujoco'' [] [Node ''compiler'' [(''meshdir'', ''/opt/meshes'')] []])
     ''compiler'') ''meshdir'' = Some ''/opt/meshes'' \<and>
   is_absolute (posix_lib ''/work'') ''/opt/meshes'' \<and>
   get_mujoco_path (posix_lib ''/work'') ''/home/u/robot.xml''
     (Node ''mujoco'' [] [Node ''compiler'' [(''meshdir'', ''/opt/meshes'')] []]) ''meshdir''
     = ''/opt/meshes'' \<and>
   attribute (child_or_null
       (Node ''mujoco'' []
          [Node ''compiler'' [(''meshdir'', ''meshes'')] [],
           Node ''asset'' [] [Node ''mesh'' [(''name'', ''link''), (''file'', ''link.stl'')] []]])
     ''compiler'') ''meshdir'' = Some ''meshes'' \<and>
   \<not> is_absolute (posix_lib ''/work'') ''meshes'' \<and>
   get_mujoco_path (posix_lib ''/work'') ''/home/u/robot.xml''
     (Node ''mujoco'' []
        [Node ''compiler'' [(''meshdir'', ''meshes'')] [],
         Node ''asset'' [] [Node ''mesh'' [(''name'', ''link''), (''file'', ''link.stl'')] []]])
     ''meshdir'' = ''/home/u/meshes'' \<and>
   get_mujoco_path (posix_lib ''/work'') ''models/robot.xml''
     (Node ''mujoco'' []
        [Node ''compiler'' [(''meshdir'', ''meshes'')] [],
         Node ''asset'' [] [Node ''mesh'' [(''name'', ''link''), (''file'', ''link.stl'')] []]])
     ''meshdir'' = ''/work/models/meshes'' \<and>
   child (fst (merge_sections (posix_lib ''/work'') ''r1'' ''/home/u/robot.xml''
       (Node ''mujoco'' []
          [Node ''compiler'' [(''meshdir'', ''meshes'')] [],
           Node ''asset'' [] [Node ''mesh'' [(''name'', ''link''), (''file'', ''link.stl'')] []]])
       new_root)) ''asset'' =
     Some (Node ''asset'' []
             [Node ''mesh'' [(''name'', ''r1_link''), (''file'', ''/home/u/meshes/link.stl'')] []])"
proof -
  let ?L = "posix_lib ''/work''"
  let ?r0 = "Node ''mujoco'' [] [Node ''worldbody'' [] []]"
  let ?r1 = "Node ''mujoco'' [] [Node ''compiler'' [(''meshdir'', ''/opt/meshes'')] []]"
  let ?r2 = "Node ''mujoco'' []
          [Node ''compiler'' [(''meshdir'', ''meshes'')] [],
           Node ''asset'' [] [Node ''mesh'' [(''name'', ''link''), (''file'', ''link.stl'')] []]]"
  have a0: "attribute (child_or_null ?r0 ''compiler'') ''meshdir'' = None"
    by (simp add: node_eval)
  have a1: "attribute (child_or_null ?r1 ''compiler'') ''meshdir'' = Some ''/opt/meshes''"
    by (simp add: node_eval)
  have a2: "attribute (child_or_null ?r2 ''compiler'') ''meshdir'' = Some ''meshes''"
    by (simp add: node_eval)
  have a3: "attribute (child_or_null ?r2 ''compiler'') ''texturedir'' = None"
    by (simp add: node_eval)
  have b1: "is_absolute ?L ''/opt/meshes''" by (simp add: posix_eval)
  have b2: "\<not> is_absolute ?L ''meshes''" by (simp add: posix_eval)
  have p1: "parent_path ?L ''/home/u/robot.xml'' = ''/home/u''" by (simp add: posix_eval)
  have p2: "parent_path ?L ''models/robot.xml'' = ''models''" by (simp add: posix_eval)
  have c1: "absolute ?L (path_append ?L ''/home/u'' ''meshes'') = ''/home/u/meshes''"
    by (simp add: posix_eval)
  have c2: "absolute ?L (path_append ?L ''models'' ''meshes'') = ''/work/models/meshes''"
    by (simp add: posix_eval)
  from base_directory_of_entity [of ?r0 "''meshdir''" ?L "''/home/u/robot.xml''"] a0 p1
  have g0: "get_mujoco_path ?L ''/home/u/robot.xml'' ?r0 ''meshdir'' = ''/home/u''"
    by simp
  from base_directory_of_entity [of ?r1 "''meshdir''" ?L "''/home/u/robot.xml''"] a1 b1
  have g1: "get_mujoco_path ?L ''/home/u/robot.xml'' ?r1 ''meshdir'' = ''/opt/meshes''"
    by simp
  from base_directory_of_entity [of ?r2 "''meshdir''" ?L "''/home/u/robot.xml''"] a2 b2 p1 c1
  have g2: "get_mujoco_path ?L ''/home/u/robot.xml'' ?r2 ''meshdir'' = ''/home/u/meshes''"
    by simp
  from base_directory_of_entity [of ?r2 "''meshdir''" ?L "''models/robot.xml''"] a2 b2 p2 c2
  have g3: "get_mujoco_path ?L ''models/robot.xml'' ?r2 ''meshdir'' = ''/work/models/meshes''"
    by simp
  from base_directory_of_entity [of ?r2 "''texturedir''" ?L "''/home/u/robot.xml''"] a3 p1
  have g4: "get_mujoco_path ?L ''/home/u/robot.xml'' ?r2 ''texturedir'' = ''/home/u''"
    by simp
  have m: "merge_mujoco_asset ?L (child_or_null ?r2 ''asset'')
             (snd (get_child_or_create new_root ''asset'')) ''/home/u/meshes'' ''/home/u'' ''r1'' =
           Node ''asset'' []
             [Node ''mesh'' [(''name'', ''r1_link''), (''file'', ''/home/u/meshes/link.stl'')] []]"
    by (simp add: merge_mujoco_asset_def copy_assets_def update_name_def update_file_def
          prefix_bones_def new_root_def node_eval posix_eval)
  from base_directory_of_entity [of ?r2 "''meshdir''" ?L "''/home/u/robot.xml''" "''r1''" new_root]
  have "child (fst (merge_sections ?L ''r1'' ''/home/u/robot.xml'' ?r2 new_root)) ''asset'' =
     Some (merge_mujoco_asset ?L (child_or_null ?r2 ''asset'')
             (snd (get_child_or_create new_root ''asset''))
             (get_mujoco_path ?L ''/home/u/robot.xml'' ?r2 ''meshdir'')
             (get_mujoco_path ?L ''/home/u/robot.xml'' ?r2 ''texturedir'') ''r1'')"
    by (rule conjunct2 [OF conjunct2 [OF conjunct2]])
  then have g5: "child (fst (merge_sections ?L ''r1'' ''/home/u/robot.xml'' ?r2 new_root)) ''asset'' =
     Some (Node ''asset'' []
             [Node ''mesh'' [(''name'', ''r1_link''), (''file'', ''/home/u/meshes/link.stl'')] []])"
    by (simp only: g2 g4 m)
  from a0 g0 a1 b1 g1 a2 b2 g2 g3 g5 show ?thesis by (intro conjI) assumption+
qed

section \<open>What the prefixer and the asset merger do on every node\<close>

lemma attribute_add_prefix:
  "attribute (add_prefix p n b) a =
     (if a = b then map_option (\<lambda>v. p @ ''_'' @ v) (attribute n a) else attribute n a)"
  by (simp add: add_prefix_def attribute_set_value split: option.splits)

lemma name_add_prefix [simp]: "name (add_prefix p n b) = name n"
  and children_add_prefix [simp]: "children (add_prefix p n b) = children n"
  by (simp_all add: add_prefix_def split: option.splits)

lemma name_add_prefixes [simp]: "name (add_prefixes p n bs) = name n"
  and children_add_prefixes [simp]: "children (add_prefixes p n bs) = children n"
  by (induction bs arbitrary: n) (simp_all add: add_prefixes_def)

lemma attribute_add_prefixes:
  "distinct bs \<Longrightarrow>
     attribute (add_prefixes p n bs) a =
       (if a \<in> set bs then map_option (\<lambda>v. p @ ''_'' @ v) (attribute n a) else attribute n a)"
proof (induction bs arbitrary: n)
  case Nil
  then show ?case by (simp add: add_prefixes_def)
next
  case (Cons b bs)
  from Cons.prems have d: "distinct bs" "b \<notin> set bs" by simp_all
  have "add_prefixes p n (b # bs) = add_prefixes p (add_prefix p n b) bs"
    by (simp add: add_prefixes_def)
  with Cons.IH [OF d(1), of "add_prefix p n b"] d(2) show ?case
    by (auto simp: attribute_add_prefix)
qed

lemma children_foldl_append_copy:
  "children (foldl (\<lambda>acc c. append_copy acc (g c)) out cs) = children out @ map g cs"
  by (induction cs arbitrary: out) simp_all

lemma add_prefix_recursively_node:
  "name (add_prefix_recursively p n bs) = name n \<and>
   children (add_prefix_recursively p n bs) = map (\<lambda>c. add_prefix_recursively p c bs) (children n) \<and>
   attributes (add_prefix_recursively p n bs) = attributes (add_prefixes p n bs)"
  by (cases n) simp

lemma worldbody_nodes_prefixed:
  "children (merge_mujoco_worldbody inp out robot) =
     children out @ map (\<lambda>c. add_prefix_recursively robot c worldbody_attrs) (children inp) \<and>
   name (add_prefix_recursively robot n worldbody_attrs) = name n \<and>
   children (add_prefix_recursively robot n worldbody_attrs) =
     map (\<lambda>c. add_prefix_recursively robot c worldbody_attrs) (children n) \<and>
   attribute (add_prefix_recursively robot n worldbody_attrs) a =
     (if a \<in> {''name'', ''childclasss'', ''class'', ''material'', ''hfield'', ''mesh'', ''target''}
      then map_option (\<lambda>v. robot @ ''_'' @ v) (attribute n a)
      else attribute n a)"
proof -
  have d: "distinct worldbody_attrs" by (simp add: worldbody_attrs_def)
  have s: "set worldbody_attrs =
             {''name'', ''childclasss'', ''class'', ''material'', ''hfield'', ''mesh'', ''target''}"
    by (simp add: worldbody_attrs_def)
  have "attribute (add_prefix_recursively robot n worldbody_attrs) a =
          attribute (add_prefixes robot n worldbody_attrs) a"
    using add_prefix_recursively_node [of robot n worldbody_attrs] by (simp add: attribute_def)
  with attribute_add_prefixes [OF d, of robot n a] s
  have "attribute (add_prefix_recursively robot n worldbody_attrs) a =
     (if a \<in> {''name'', ''childclasss'', ''class'', ''material'', ''hfield'', ''mesh'', ''target''}
      then map_option (\<lambda>v. robot @ ''_'' @ v) (attribute n a)
      else attribute n a)"
    by simp
  with add_prefix_recursively_node [of robot n worldbody_attrs] show ?thesis
    by (simp add: merge_mujoco_worldbody_def children_foldl_append_copy)
qed

lemma attribute_update_name_file [simp]:
  "attribute (update_name robot n) ''file'' = attribute n ''file''"
  by (simp add: update_name_def attribute_add_prefix)

lemma attribute_update_file:
  "attribute (update_file L n dir) ''file'' =
     map_option (\<lambda>f. if is_absolute L f then f else absolute L (path_append L dir f))
       (attribute n ''file'')"
  by (simp add: update_file_def attribute_set_value split: option.splits)

lemma name_update_name [simp]: "name (update_name robot n) = name n"
  by (simp add: update_name_def)

lemma name_update_file [simp]: "name (update_file L n dir) = name n"
  by (simp add: update_file_def split: option.splits)

lemma name_prefix_bones [simp]: "name (prefix_bones robot n) = name n"
  and attribute_prefix_bones [simp]: "attribute (prefix_bones robot n) a = attribute n a"
  by (simp_all add: prefix_bones_def attribute_def)

lemma children_merge_mujoco_asset:
  "children (merge_mujoco_asset L inp out meshPath texturePath robot) =
     children out
     @ map (update_name robot) (children_named inp ''hfield'')
     @ map (\<lambda>s. prefix_bones robot (update_file L (update_name robot s) meshPath))
         (children_named inp ''skin'')
     @ map (\<lambda>m. add_prefix robot (update_name robot m) ''texture'') (children_named inp ''material'')
     @ map (\<lambda>n. update_file L (update_name robot n) texturePath) (children_named inp ''texture'')
     @ map (\<lambda>n. update_file L (update_name robot n) meshPath) (children_named inp ''mesh'')"
  by (simp add: merge_mujoco_asset_def copy_assets_def Let_def children_foldl_append_copy)

lemma copied_skin_texture_mesh_files_absolute:
  assumes ab: "\<forall>p. is_absolute L (absolute L p)"
    and n: "n \<in> set (drop (length (children out))
                     (children (merge_mujoco_asset L inp out meshPath texturePath robot)))"
    and nm: "name n \<in> {''skin'', ''texture'', ''mesh''}"
    and f: "attribute n ''file'' = Some f"
  shows "is_absolute L f"
proof -
  have abs: "attribute (update_file L x dir) ''file'' = Some f \<Longrightarrow> is_absolute L f" for x dir
    using ab by (auto simp: attribute_update_file split: if_splits)
  from n have "n \<in> set (map (update_name robot) (children_named inp ''hfield''))
     \<or> n \<in> set (map (\<lambda>s. prefix_bones robot (update_file L (update_name robot s) meshPath))
         (children_named inp ''skin''))
     \<or> n \<in> set (map (\<lambda>m. add_prefix robot (update_name robot m) ''texture'')
         (children_named inp ''material''))
     \<or> n \<in> set (map (\<lambda>n. update_file L (update_name robot n) texturePath)
         (children_named inp ''texture''))
     \<or> n \<in> set (map (\<lambda>n. update_file L (update_name robot n) meshPath)
         (children_named inp ''mesh''))"
    by (simp add: children_merge_mujoco_asset)
  then show ?thesis
  proof (elim disjE)
    assume "n \<in> set (map (update_name robot) (children_named inp ''hfield''))"
    then have "name n = ''hfield''" by (auto simp: children_named_def)
    with nm show ?thesis by simp
  next
    assume "n \<in> set (map (\<lambda>s. prefix_bones robot (update_file L (update_name robot s) meshPath))
         (children_named inp ''skin''))"
    then obtain s where "n = prefix_bones robot (update_file L (update_name robot s) meshPath)"
      by auto
    with f abs [of "update_name robot s" meshPath] show ?thesis by simp
  next
    assume "n \<in> set (map (\<lambda>m. add_prefix robot (update_name robot m) ''texture'')
         (children_named inp ''material''))"
    then have "name n = ''material''" by (auto simp: children_named_def)
    with nm show ?thesis by simp
  next
    assume "n \<in> set (map (\<lambda>n. update_file L (update_name robot n) texturePath)
         (children_named inp ''texture''))"
    then obtain s where "n = update_file L (update_name robot s) texturePath" by auto
    with f abs [of "update_name robot s" texturePath] show ?thesis by simp
  next
    assume "n \<in> set (map (\<lambda>n. update_file L (update_name robot n) meshPath)
         (children_named inp ''mesh''))"
    then obtain s where "n = update_file L (update_name robot s) meshPath" by auto
    with f abs [of "update_name robot s" meshPath] show ?thesis by simp
  qed
qed

text \<open>
  C1. In a worldbody subtree copied by \<^verbatim>\<open>merge_mujoco_worldbody\<close> the attribute
  \<^verbatim>\<open>childclass\<close> of every node keeps its value: the list of line 242 spells the attribute
  \<^verbatim>\<open>childclasss\<close>, so it is never matched. For the entity \<^verbatim>\<open>r1\<close> and a body \<^verbatim>\<open>arm\<close>
  with \<^verbatim>\<open>childclass="arm_defaults"\<close> that holds a joint and a geom, the attributes
  \<^verbatim>\<open>name\<close>, \<^verbatim>\<open>class\<close> and \<^verbatim>\<open>material\<close> of the three nodes are prefixed with \<^verbatim>\<open>r1_\<close>
  and \<^verbatim>\<open>childclass\<close> is still \<^verbatim>\<open>arm_defaults\<close>.
\<close>

theorem worldbody_childclass_not_prefixed:
  "attribute (add_prefix_recursively robot n worldbody_attrs) ''childclass'' =
     attribute n ''childclass'' \<and>
   merge_mujoco_worldbody
     (Node ''worldbody'' []
        [Node ''body'' [(''name'', ''arm''), (''childclass'', ''arm_defaults'')]
           [Node ''joint'' [(''name'', ''j1''), (''class'', ''hinge'')] [],
            Node ''geom'' [(''name'', ''g1''), (''material'', ''steel'')] []]])
     (Node ''worldbody'' [] []) ''r1''
   = Node ''worldbody'' []
       [Node ''body'' [(''name'', ''r1_arm''), (''childclass'', ''arm_defaults'')]
          [Node ''joint'' [(''name'', ''r1_j1''), (''class'', ''r1_hinge'')] [],
           Node ''geom'' [(''name'', ''r1_g1''), (''material'', ''r1_steel'')] []]]"
proof -
  have "attribute (add_prefix_recursively robot n worldbody_attrs) ''childclass'' =
          attribute n ''childclass''"
    using worldbody_nodes_prefixed [of inp out robot n "''childclass''"] by simp
  then show ?thesis
    by (simp add: merge_mujoco_worldbody_def worldbody_attrs_def node_eval)
qed

text \<open>
  C2. The copy \<^verbatim>\<open>merge_mujoco_asset\<close> appends for a height field carries the \<^verbatim>\<open>file\<close>
  attribute of the source node unchanged, whatever it is: the loop of lines 174-178
  prefixes the name and does not call \<^verbatim>\<open>update_file\<close>, which the loops for skins,
  textures and meshes do. For an asset section with a height field and a mesh, both with
  a relative \<^verbatim>\<open>file\<close>, the merged mesh carries the absolute path under the mesh
  directory and the merged height field still carries its relative path.
\<close>

theorem hfield_file_stays_relative:
  "take (length (children_named inp ''hfield''))
     (drop (length (children out))
        (children (merge_mujoco_asset L inp out meshPath texturePath robot))) =
     map (update_name robot) (children_named inp ''hfield'') \<and>
   attribute (update_name robot hf) ''file'' = attribute hf ''file'' \<and>
   merge_mujoco_asset (posix_lib ''/work'')
     (Node ''asset'' []
        [Node ''hfield'' [(''name'', ''terrain''), (''file'', ''terrain.png'')] [],
         Node ''mesh'' [(''name'', ''link''), (''file'', ''link.stl'')] []])
     (Node ''asset'' [] []) ''/home/u/meshes'' ''/home/u'' ''r1''
   = Node ''asset'' []
       [Node ''hfield'' [(''name'', ''r1_terrain''), (''file'', ''terrain.png'')] [],
        Node ''mesh'' [(''name'', ''r1_link''), (''file'', ''/home/u/meshes/link.stl'')] []]
   \<and> \<not> is_absolute (posix_lib ''/work'') ''terrain.png''"
proof -
  have 1: "take (length (children_named inp ''hfield''))
     (drop (length (children out))
        (children (merge_mujoco_asset L inp out meshPath texturePath robot))) =
     map (update_name robot) (children_named inp ''hfield'')"
    by (simp add: children_merge_mujoco_asset)
  have 2: "merge_mujoco_asset (posix_lib ''/work'')
     (Node ''asset'' []
        [Node ''hfield'' [(''name'', ''terrain''), (''file'', ''terrain.png'')] [],
         Node ''mesh'' [(''name'', ''link''), (''file'', ''link.stl'')] []])
     (Node ''asset'' [] []) ''/home/u/meshes'' ''/home/u'' ''r1''
   = Node ''asset'' []
       [Node ''hfield'' [(''name'', ''r1_terrain''), (''file'', ''terrain.png'')] [],
        Node ''mesh'' [(''name'', ''r1_link''), (''file'', ''/home/u/meshes/link.stl'')] []]"
    by (simp add: merge_mujoco_asset_def copy_assets_def update_name_def update_file_def
        prefix_bones_def node_eval posix_eval)
  have 3: "\<not> is_absolute (posix_lib ''/work'') ''terrain.png''"
    by (simp add: posix_eval)
  from 1 2 3 show ?thesis by simp
qed

end
